theory Spec2Isabelle
  imports Complex_Main "HOL-Library.Sublist"
begin

section \<open>Data model\<close>

text \<open>
  The sound-matching engine of \<^verbatim>\<open>SomunicateDBASv10.0.py\<close> (and its earlier variant
  \<^verbatim>\<open>SomunicateDBASv5.0.py\<close>) works on pandas data frames and numpy arrays of floats.
  Numbers are modelled as exact reals; the one float value whose behaviour the code
  depends on structurally, NaN, is modelled as \<open>None\<close>: a cell is \<open>Some x\<close> or NaN.
  Exceptions are values of the type \<open>error\<close>.
\<close>

datatype error = KeyError | ValueError | IndexError | LinAlgError

type_synonym cell = "real option"

type_synonym matrix = "real list list"

text \<open>
  A data frame: the names of its columns and its rows in file order. A row gives the
  cell of every column of the frame; what it returns outside \<open>cols\<close> is never read.
\<close>

record frame =
  cols :: "string list"
  rows :: "(string \<Rightarrow> cell) list"

section \<open>Float operations that propagate NaN\<close>

text \<open>The defined values of a list of cells, or \<open>None\<close> when one of them is NaN.\<close>

fun all_defined :: "cell list \<Rightarrow> real list option" where
  "all_defined [] = Some []"
| "all_defined (c # cs) =
     (case c of None \<Rightarrow> None
      | Some x \<Rightarrow> (case all_defined cs of None \<Rightarrow> None | Some xs \<Rightarrow> Some (x # xs)))"

definition np_sub :: "cell \<Rightarrow> real \<Rightarrow> cell" where
  "np_sub c u = (case c of None \<Rightarrow> None | Some x \<Rightarrow> Some (x - u))"

text \<open>\<^verbatim>\<open>np.mean\<close> of a list: NaN for the empty list (0/0) and when an element is NaN.\<close>

definition np_mean :: "cell list \<Rightarrow> cell" where
  "np_mean xs =
     (if xs = [] then None
      else (case all_defined xs of None \<Rightarrow> None
            | Some vs \<Rightarrow> Some (sum_list vs / real (length vs))))"

text \<open>A comparison \<^verbatim>\<open>c >= t\<close>, \<^verbatim>\<open>c > t\<close>: false when \<open>c\<close> is NaN.\<close>

definition np_ge :: "cell \<Rightarrow> real \<Rightarrow> bool" where
  "np_ge c t = (case c of None \<Rightarrow> False | Some x \<Rightarrow> t \<le> x)"

definition np_gt :: "cell \<Rightarrow> real \<Rightarrow> bool" where
  "np_gt c t = (case c of None \<Rightarrow> False | Some x \<Rightarrow> t < x)"

text \<open>\<^verbatim>\<open>np.sqrt\<close>: NaN for a negative or NaN argument.\<close>

definition np_sqrt :: "cell \<Rightarrow> cell" where
  "np_sqrt c = (case c of None \<Rightarrow> None | Some x \<Rightarrow> if x < 0 then None else Some (sqrt x))"

text \<open>\<^verbatim>\<open>np.linalg.norm(..., axis=1)\<close> on one row: the root of the sum of squares.\<close>

definition np_norm :: "cell list \<Rightarrow> cell" where
  "np_norm xs =
     (case all_defined xs of None \<Rightarrow> None
      | Some vs \<Rightarrow> Some (sqrt (sum_list (map (\<lambda>v. v\<^sup>2) vs))))"

text \<open>
  Broadcasting of a row of \<open>k\<close> cells against the \<open>k'\<close> user ratings: the shapes are
  compatible when they are equal or one of them is 1.
\<close>

definition broadcastable :: "nat \<Rightarrow> nat \<Rightarrow> bool" where
  "broadcastable k k' = (k = k' \<or> k' = 1 \<or> k = 1)"

definition row_sub :: "cell list \<Rightarrow> real list \<Rightarrow> cell list" where
  "row_sub row us =
     (if length row = length us then map2 np_sub row us
      else if length us = 1 then map (\<lambda>c. np_sub c (hd us)) row
      else map (\<lambda>u. np_sub (hd row) u) us)"

section \<open>Data frame access\<close>

text \<open>A list comprehension whose element expression may raise.\<close>

fun collect :: "('a \<Rightarrow> error + 'b) \<Rightarrow> 'a list \<Rightarrow> error + 'b list" where
  "collect f [] = Inr []"
| "collect f (x # xs) =
     (case f x of Inl e \<Rightarrow> Inl e
      | Inr y \<Rightarrow> (case collect f xs of Inl e \<Rightarrow> Inl e | Inr ys \<Rightarrow> Inr (y # ys)))"

text \<open>\<^verbatim>\<open>df[dimensions]\<close>: the listed columns of every row; KeyError for an unknown name.\<close>

definition select_columns :: "frame \<Rightarrow> string list \<Rightarrow> error + cell list list" where
  "select_columns df dimensions =
     (if list_all (\<lambda>d. d \<in> set (cols df)) dimensions
      then Inr (map (\<lambda>r. map r dimensions) (rows df))
      else Inl KeyError)"

text \<open>\<^verbatim>\<open>df.iloc[index][name]\<close>.\<close>

definition iloc_cell :: "frame \<Rightarrow> nat \<Rightarrow> string \<Rightarrow> error + cell" where
  "iloc_cell df index name =
     (if length (rows df) \<le> index then Inl IndexError
      else if name \<notin> set (cols df) then Inl KeyError
      else Inr ((rows df ! index) name))"

text \<open>\<^verbatim>\<open>df.iloc[top_indices]\<close>: the rows at the positions, each with its position label.\<close>

definition iloc_rows :: "frame \<Rightarrow> nat list \<Rightarrow> error + (nat \<times> (string \<Rightarrow> cell)) list" where
  "iloc_rows df top_indices =
     (if list_all (\<lambda>i. i < length (rows df)) top_indices
      then Inr (map (\<lambda>i. (i, rows df ! i)) top_indices)
      else Inl IndexError)"

text \<open>\<^verbatim>\<open>str(id)\<close> of an integer: its decimal digits, with a minus sign when negative.\<close>

fun digits :: "nat \<Rightarrow> string" where
  "digits n = (if n < 10 then [''0123456789'' ! n]
               else digits (n div 10) @ [''0123456789'' ! (n mod 10)])"

declare digits.simps [simp del]

definition str_int :: "int \<Rightarrow> string" where
  "str_int i = (if i < 0 then CHR ''-'' # digits (nat (- i)) else digits (nat i))"

section \<open>Ranking\<close>

text \<open>
  \<^verbatim>\<open>np.argsort(distances)\<close> is called with numpy's default sort kind, which numpy
  documents as not stable. The ranking functions therefore take the sort as a parameter
  \<open>argsort\<close>, and \<open>is_argsort\<close> is what numpy promises of its result: a permutation
  of the positions that puts the distances in ascending order, NaN last.
\<close>

definition nan_le :: "cell \<Rightarrow> cell \<Rightarrow> bool" where
  "nan_le a b =
     (case b of None \<Rightarrow> True
      | Some y \<Rightarrow> (case a of None \<Rightarrow> False | Some x \<Rightarrow> x \<le> y))"

definition is_argsort :: "cell list \<Rightarrow> nat list \<Rightarrow> bool" where
  "is_argsort ds idx =
     (length idx = length ds \<and> distinct idx \<and> list_all (\<lambda>i. i < length ds) idx
      \<and> sorted_wrt (\<lambda>i j. nan_le (ds ! i) (ds ! j)) idx)"

text \<open>
  The distances of \<^verbatim>\<open>find_closest_sounds_euclidean\<close>:
  \<^verbatim>\<open>np.linalg.norm(specified_dimensions.values - user_ratings, axis=1)\<close>.
\<close>

definition euclidean_distances :: "real list \<Rightarrow> string list \<Rightarrow> frame \<Rightarrow> error + cell list" where
  "euclidean_distances user_ratings dimensions df =
     (case select_columns df dimensions of Inl e \<Rightarrow> Inl e
      | Inr specified_dimensions \<Rightarrow>
          if broadcastable (length dimensions) (length user_ratings)
          then Inr (map (\<lambda>row. np_norm (row_sub row user_ratings)) specified_dimensions)
          else Inl ValueError)"

text \<open>
  The two conditions of the filter loop of version 10 for the candidate at \<open>index\<close>:
  the mean liking over the columns \<^verbatim>\<open>str(group_id)\<close> and the mean familiarity over the
  columns \<^verbatim>\<open>str(group_id + 12)\<close>, each compared with its session threshold.
\<close>

definition passes_thresholds :: "frame \<Rightarrow> int list \<Rightarrow> real \<Rightarrow> real \<Rightarrow> nat \<Rightarrow> error + bool" where
  "passes_thresholds df user_group_ids MIN_LIKING MIN_FAMILIARITY index =
     (case collect (\<lambda>group_id. iloc_cell df index (str_int group_id)) user_group_ids of
        Inl e \<Rightarrow> Inl e
      | Inr likings \<Rightarrow>
          (case collect (\<lambda>group_id. iloc_cell df index (str_int (group_id + 12))) user_group_ids of
             Inl e \<Rightarrow> Inl e
           | Inr familiarities \<Rightarrow>
               Inr (np_ge (np_mean likings) MIN_LIKING
                    \<and> np_ge (np_mean familiarities) MIN_FAMILIARITY)))"

text \<open>
  The loop over the sorted positions: a candidate that passes is appended, and the loop
  stops as soon as \<open>top_n\<close> candidates are collected. (The second stop condition of the
  source, \<^verbatim>\<open>index == ''\<close>, compares a number with a string and never holds.)
\<close>

fun filter_loop :: "(nat \<Rightarrow> error + bool) \<Rightarrow> int \<Rightarrow> nat list \<Rightarrow> nat list \<Rightarrow> error + nat list" where
  "filter_loop ok top_n [] filtered_indices = Inr filtered_indices"
| "filter_loop ok top_n (index # rest) filtered_indices =
     (case ok index of Inl e \<Rightarrow> Inl e
      | Inr b \<Rightarrow>
          (let filtered' = (if b then filtered_indices @ [index] else filtered_indices)
           in if top_n \<le> int (length filtered') then Inr filtered'
              else filter_loop ok top_n rest filtered'))"

definition find_closest_sounds_euclidean ::
  "(cell list \<Rightarrow> nat list) \<Rightarrow> real \<Rightarrow> real \<Rightarrow> real list \<Rightarrow> string list \<Rightarrow> frame \<Rightarrow> int list \<Rightarrow> int
     \<Rightarrow> error + (nat \<times> (string \<Rightarrow> cell)) list" where
  "find_closest_sounds_euclidean argsort MIN_LIKING MIN_FAMILIARITY
       user_ratings dimensions final_combined_data user_group_ids top_n =
     (case euclidean_distances user_ratings dimensions final_combined_data of
        Inl e \<Rightarrow> Inl e
      | Inr distances \<Rightarrow>
          (case filter_loop
                  (passes_thresholds final_combined_data user_group_ids MIN_LIKING MIN_FAMILIARITY)
                  top_n (argsort distances) [] of
             Inl e \<Rightarrow> Inl e
           | Inr top_indices \<Rightarrow> iloc_rows final_combined_data top_indices))"

text \<open>
  \<^verbatim>\<open>find_closest_sound\<close> of \<^verbatim>\<open>eucdisMax.py\<close> returns the one row at
  \<^verbatim>\<open>np.argmin(distances)\<close>: the first position of the least distance, or the first
  NaN when there is one; ValueError for no distance at all.
\<close>

fun argmin_loop :: "nat \<Rightarrow> real \<Rightarrow> nat \<Rightarrow> cell list \<Rightarrow> nat" where
  "argmin_loop best_i best i [] = best_i"
| "argmin_loop best_i best i (c # cs) =
     (case c of None \<Rightarrow> i
      | Some x \<Rightarrow> if x < best then argmin_loop i x (Suc i) cs
                  else argmin_loop best_i best (Suc i) cs)"

definition np_argmin :: "cell list \<Rightarrow> error + nat" where
  "np_argmin ds =
     (case ds of [] \<Rightarrow> Inl ValueError
      | None # cs \<Rightarrow> Inr 0
      | Some x # cs \<Rightarrow> Inr (argmin_loop 0 x 1 cs))"

definition find_closest_sound ::
  "real list \<Rightarrow> string list \<Rightarrow> frame \<Rightarrow> error + nat \<times> (string \<Rightarrow> cell)" where
  "find_closest_sound user_ratings dimensions df =
     (case euclidean_distances user_ratings dimensions df of Inl e \<Rightarrow> Inl e
      | Inr distances \<Rightarrow>
          (case np_argmin distances of Inl e \<Rightarrow> Inl e
           | Inr closest_index \<Rightarrow> Inr (closest_index, rows df ! closest_index)))"

text \<open>
  \<^verbatim>\<open>dimensions.index(dim)\<close>: the first position of \<open>dim\<close> in the list, ValueError when
  it does not occur.
\<close>

fun list_index :: "'a list \<Rightarrow> 'a \<Rightarrow> error + nat" where
  "list_index [] x = Inl ValueError"
| "list_index (y # ys) x =
     (if y = x then Inr 0
      else (case list_index ys x of Inl e \<Rightarrow> Inl e | Inr n \<Rightarrow> Inr (Suc n)))"

text \<open>A matrix is the list of its rows, all of the same length.\<close>

definition ncols :: "'a list list \<Rightarrow> nat" where
  "ncols M = (case M of [] \<Rightarrow> 0 | r # _ \<Rightarrow> length r)"

text \<open>\<^verbatim>\<open>M[np.ix_(rs, cs)]\<close>: the entries at the listed rows and columns, in list order.\<close>

definition np_ix_select :: "'a list list \<Rightarrow> nat list \<Rightarrow> nat list \<Rightarrow> error + 'a list list" where
  "np_ix_select M rs cs =
     (if list_all (\<lambda>r. r < length M) rs \<and> list_all (\<lambda>c. c < ncols M) cs
      then Inr (map (\<lambda>r. map (\<lambda>c. M ! r ! c) cs) rs)
      else Inl IndexError)"

text \<open>
  The sub-matrix that \<^verbatim>\<open>find_closest_sounds_mahalanobis\<close> takes from the cached inverse:
  both index lists are \<^verbatim>\<open>[dimensions.index(dim) for dim in dimensions]\<close>, where
  \<open>dimensions\<close> is the list of selected dimensions that the function received.
\<close>

definition selected_inv_cov :: "'a list list \<Rightarrow> string list \<Rightarrow> error + 'a list list" where
  "selected_inv_cov inv_cov_matrix dimensions =
     (case collect (list_index dimensions) dimensions of Inl e \<Rightarrow> Inl e
      | Inr row_idx \<Rightarrow>
          (case collect (list_index dimensions) dimensions of Inl e \<Rightarrow> Inl e
           | Inr col_idx \<Rightarrow> np_ix_select inv_cov_matrix row_idx col_idx))"

definition dot :: "real list \<Rightarrow> real list \<Rightarrow> real" where
  "dot u v = sum_list (map2 (*) u v)"

text \<open>The product \<open>v @ M\<close> of a vector and a matrix.\<close>

definition vec_mat :: "real list \<Rightarrow> matrix \<Rightarrow> real list" where
  "vec_mat v M = map (\<lambda>j. dot v (map (\<lambda>r. r ! j) M)) [0..<ncols M]"

text \<open>
  \<^verbatim>\<open>np.sqrt(diff.T @ selected_inv_cov_matrix @ diff)\<close> for one row. The products
  need matching shapes; a NaN in \<open>diff\<close> makes every product NaN.
\<close>

definition mahalanobis_distance :: "matrix \<Rightarrow> cell list \<Rightarrow> error + cell" where
  "mahalanobis_distance S diff =
     (if length diff = length S \<and> ncols S = length diff
      then Inr (case all_defined diff of None \<Rightarrow> None
                | Some d \<Rightarrow> np_sqrt (Some (dot (vec_mat d S) d)))
      else Inl ValueError)"

definition mahalanobis_distances ::
  "real list \<Rightarrow> string list \<Rightarrow> frame \<Rightarrow> matrix \<Rightarrow> error + cell list" where
  "mahalanobis_distances user_ratings dimensions df inv_cov_matrix =
     (case select_columns df dimensions of Inl e \<Rightarrow> Inl e
      | Inr specified_dimensions \<Rightarrow>
          (case selected_inv_cov inv_cov_matrix dimensions of Inl e \<Rightarrow> Inl e
           | Inr selected_inv_cov_matrix \<Rightarrow>
               collect (\<lambda>row.
                   if broadcastable (length row) (length user_ratings)
                   then mahalanobis_distance selected_inv_cov_matrix (row_sub row user_ratings)
                   else Inl ValueError)
                 specified_dimensions))"

definition find_closest_sounds_mahalanobis ::
  "(cell list \<Rightarrow> nat list) \<Rightarrow> real \<Rightarrow> real \<Rightarrow> real list \<Rightarrow> string list \<Rightarrow> frame \<Rightarrow> matrix
     \<Rightarrow> int list \<Rightarrow> int \<Rightarrow> error + (nat \<times> (string \<Rightarrow> cell)) list" where
  "find_closest_sounds_mahalanobis argsort MIN_LIKING MIN_FAMILIARITY
       user_ratings dimensions final_combined_data inv_cov_matrix user_group_ids top_n =
     (case mahalanobis_distances user_ratings dimensions final_combined_data inv_cov_matrix of
        Inl e \<Rightarrow> Inl e
      | Inr distances \<Rightarrow>
          (case filter_loop
                  (passes_thresholds final_combined_data user_group_ids MIN_LIKING MIN_FAMILIARITY)
                  top_n (argsort distances) [] of
             Inl e \<Rightarrow> Inl e
           | Inr top_indices \<Rightarrow> iloc_rows final_combined_data top_indices))"

subsection \<open>The selection of version 5\<close>

definition NUM_DEMOGRAPHIC_GROUPS :: nat where
  "NUM_DEMOGRAPHIC_GROUPS = 12"

text \<open>\<^verbatim>\<open>any(data.iloc[index][str(group_id)] > 50 for group_id in user_group_ids)\<close>.\<close>

fun any_liked :: "frame \<Rightarrow> nat \<Rightarrow> int list \<Rightarrow> error + bool" where
  "any_liked df index [] = Inr False"
| "any_liked df index (group_id # ids) =
     (case iloc_cell df index (str_int group_id) of Inl e \<Rightarrow> Inl e
      | Inr c \<Rightarrow> if np_gt c 50 then Inr True else any_liked df index ids)"

text \<open>The slice \<^verbatim>\<open>xs[:n]\<close>; a negative \<open>n\<close> counts from the end.\<close>

definition py_take :: "int \<Rightarrow> 'a list \<Rightarrow> 'a list" where
  "py_take n xs = (if 0 \<le> n then take (nat n) xs else take (length xs - nat (- n)) xs)"

definition select_top_v5 :: "frame \<Rightarrow> int list \<Rightarrow> int \<Rightarrow> nat list \<Rightarrow> error + nat list" where
  "select_top_v5 df user_group_ids top_n top_indices =
     (if length user_group_ids < NUM_DEMOGRAPHIC_GROUPS
      then filter_loop (\<lambda>index. any_liked df index user_group_ids) top_n top_indices []
      else Inr (py_take top_n top_indices))"

definition find_closest_sounds_euclidean_v5 ::
  "(cell list \<Rightarrow> nat list) \<Rightarrow> real list \<Rightarrow> string list \<Rightarrow> frame \<Rightarrow> int list \<Rightarrow> int
     \<Rightarrow> error + (nat \<times> (string \<Rightarrow> cell)) list" where
  "find_closest_sounds_euclidean_v5 argsort user_ratings dimensions df user_group_ids top_n =
     (case euclidean_distances user_ratings dimensions df of Inl e \<Rightarrow> Inl e
      | Inr distances \<Rightarrow>
          (case select_top_v5 df user_group_ids top_n (argsort distances) of Inl e \<Rightarrow> Inl e
           | Inr top_indices \<Rightarrow> iloc_rows df top_indices))"

section \<open>Displayed scores\<close>

text \<open>\<^verbatim>\<open>int(x)\<close> of a float: truncation towards zero.\<close>

definition py_int :: "real \<Rightarrow> int" where
  "py_int x = (if 0 \<le> x then \<lfloor>x\<rfloor> else \<lceil>x\<rceil>)"

text \<open>
  \<^verbatim>\<open>row.get(name, 0)\<close> followed by \<^verbatim>\<open>0 if pd.isna(v) else int(v)\<close>; \<open>cs\<close> are the
  columns of the row.
\<close>

definition score_or_zero :: "string list \<Rightarrow> (string \<Rightarrow> cell) \<Rightarrow> string \<Rightarrow> int" where
  "score_or_zero cs row name =
     (if name \<in> set cs then (case row name of None \<Rightarrow> 0 | Some x \<Rightarrow> py_int x) else 0)"

text \<open>
  The loop of \<^verbatim>\<open>AudioScoreCalculator.calculate_scores\<close>; the state is
  \<open>(total_liking, total_familiarity, count_liking, count_familiarity)\<close>.
\<close>

fun scores_loop ::
  "string list \<Rightarrow> (string \<Rightarrow> cell) \<Rightarrow> int list \<Rightarrow> int \<times> int \<times> int \<times> int \<Rightarrow> int \<times> int \<times> int \<times> int" where
  "scores_loop cs row [] acc = acc"
| "scores_loop cs row (gid # ids) (total_liking, total_familiarity, count_liking, count_familiarity) =
     scores_loop cs row ids
       (total_liking + score_or_zero cs row (str_int gid),
        total_familiarity + score_or_zero cs row (str_int (gid + 12)),
        count_liking + 1, count_familiarity + 1)"

definition calculate_scores :: "int list \<Rightarrow> string list \<Rightarrow> (string \<Rightarrow> cell) \<Rightarrow> int \<times> int" where
  "calculate_scores user_group_ids cs row =
     (case scores_loop cs row user_group_ids (0, 0, 0, 0) of
        (total_liking, total_familiarity, count_liking, count_familiarity) \<Rightarrow>
          (if 0 < count_liking then total_liking div count_liking else 0,
           if 0 < count_familiarity then total_familiarity div count_familiarity else 0))"

section \<open>Correlation matrix\<close>

text \<open>
  \<^verbatim>\<open>corr_matrix_setup\<close>: the table read from the correlation file loses its first
  column (\<^verbatim>\<open>.iloc[:, 1:]\<close>, the label column) and every remaining coefficient \<open>c\<close> is
  rescaled elementwise, \<^verbatim>\<open>(corr_matrix * 2) - 1\<close>.
\<close>

definition corr_matrix_setup :: "matrix \<Rightarrow> matrix" where
  "corr_matrix_setup tbl = map (map (\<lambda>c. c * 2 - 1)) (map (drop 1) tbl)"

section \<open>Inverse covariance and application start\<close>

definition np_diag :: "real list \<Rightarrow> matrix" where
  "np_diag v = map (\<lambda>i. map (\<lambda>j. if i = j then v ! i else 0) [0..<length v]) [0..<length v]"

text \<open>The matrix product \<open>A @ B\<close>; ValueError when the shapes do not match.\<close>

definition matmul :: "matrix \<Rightarrow> matrix \<Rightarrow> error + matrix" where
  "matmul A B = (if ncols A = length B then Inr (map (\<lambda>r. vec_mat r B) A) else Inl ValueError)"

text \<open>
  What \<^verbatim>\<open>load_and_prepare_data\<close> leaves in the application object. The standard
  deviations \<open>stds\<close> of the rating columns (\<^verbatim>\<open>self.data[rate_cols].std()\<close>) and the
  parsed correlation table are its inputs. \<^verbatim>\<open>np.linalg.inv\<close> works on floats by LU
  factorisation and raises LinAlgError only when it meets a pivot that is exactly zero;
  which matrices that happens for is not fixed here: the inversion is the parameter
  \<open>linalg_inv\<close>, which raises or returns a matrix.
\<close>

record app =
  inv_cov_matrix :: matrix
  final_combined_data :: frame

definition covariance :: "real list \<Rightarrow> matrix \<Rightarrow> error + matrix" where
  "covariance stds corr_table =
     (let std_diag_matrix = np_diag stds;
          corr_matrix = corr_matrix_setup corr_table
      in case matmul std_diag_matrix corr_matrix of Inl e \<Rightarrow> Inl e
         | Inr m \<Rightarrow> matmul m std_diag_matrix)"

definition load_and_prepare_data ::
  "(matrix \<Rightarrow> error + matrix) \<Rightarrow> real list \<Rightarrow> matrix \<Rightarrow> frame \<Rightarrow> error + app" where
  "load_and_prepare_data linalg_inv stds corr_table combined =
     (case covariance stds corr_table of Inl e \<Rightarrow> Inl e
      | Inr cov \<Rightarrow>
          (case linalg_inv cov of Inl e \<Rightarrow> Inl e
           | Inr inv_cov \<Rightarrow> Inr \<lparr>inv_cov_matrix = inv_cov, final_combined_data = combined\<rparr>))"

text \<open>
  \<^verbatim>\<open>display_results\<close> computes the Euclidean result and then the Mahalanobis result;
  \<^verbatim>\<open>run\<close> loads the data first. No exception is caught anywhere.
\<close>

definition display_results ::
  "app \<Rightarrow> (cell list \<Rightarrow> nat list) \<Rightarrow> real \<Rightarrow> real \<Rightarrow> real list \<Rightarrow> string list \<Rightarrow> int list \<Rightarrow> int
     \<Rightarrow> error + (nat \<times> (string \<Rightarrow> cell)) list \<times> (nat \<times> (string \<Rightarrow> cell)) list" where
  "display_results a argsort MIN_LIKING MIN_FAMILIARITY user_ratings selected_dimensions
       user_group_ids top_n =
     (if 0 < length user_ratings then
        (case find_closest_sounds_euclidean argsort MIN_LIKING MIN_FAMILIARITY user_ratings
                selected_dimensions (final_combined_data a) user_group_ids top_n of
           Inl e \<Rightarrow> Inl e
         | Inr closest_sounds_euclidean \<Rightarrow>
             (case find_closest_sounds_mahalanobis argsort MIN_LIKING MIN_FAMILIARITY user_ratings
                     selected_dimensions (final_combined_data a) (inv_cov_matrix a)
                     user_group_ids top_n of
                Inl e \<Rightarrow> Inl e
              | Inr closest_sounds_mahalanobis \<Rightarrow>
                  Inr (closest_sounds_euclidean, closest_sounds_mahalanobis)))
      else Inr ([], []))"

definition run ::
  "(matrix \<Rightarrow> error + matrix) \<Rightarrow> real list \<Rightarrow> matrix \<Rightarrow> frame \<Rightarrow> (cell list \<Rightarrow> nat list)
     \<Rightarrow> real \<Rightarrow> real \<Rightarrow> real list \<Rightarrow> string list \<Rightarrow> int list \<Rightarrow> int
     \<Rightarrow> error + (nat \<times> (string \<Rightarrow> cell)) list \<times> (nat \<times> (string \<Rightarrow> cell)) list" where
  "run linalg_inv stds corr_table combined argsort MIN_LIKING MIN_FAMILIARITY user_ratings
       selected_dimensions user_group_ids top_n =
     (case load_and_prepare_data linalg_inv stds corr_table combined of Inl e \<Rightarrow> Inl e
      | Inr a \<Rightarrow>
          if selected_dimensions \<noteq> [] \<and> user_ratings \<noteq> []
          then display_results a argsort MIN_LIKING MIN_FAMILIARITY user_ratings
                 selected_dimensions user_group_ids top_n
          else Inr ([], []))"

section \<open>Example data\<close>

text \<open>
  A sort that meets \<open>is_argsort\<close>: it inserts the positions one after the other
  into the sorted list, each behind the earlier positions of equal distance.
\<close>

fun insert_after_ties :: "cell list \<Rightarrow> nat \<Rightarrow> nat list \<Rightarrow> nat list" where
  "insert_after_ties ds i [] = [i]"
| "insert_after_ties ds i (j # js) =
     (if nan_le (ds ! j) (ds ! i) then j # insert_after_ties ds i js else i # j # js)"

definition stable_argsort :: "cell list \<Rightarrow> nat list" where
  "stable_argsort ds = foldl (\<lambda>sorted i. insert_after_ties ds i sorted) [] [0..<length ds]"

text \<open>The determinant, by expansion along the first row.\<close>

definition drop_col :: "nat \<Rightarrow> 'a list \<Rightarrow> 'a list" where
  "drop_col j r = take j r @ drop (Suc j) r"

fun det :: "matrix \<Rightarrow> real" where
  "det [] = 1"
| "det (r # rs) = (\<Sum>j\<leftarrow>[0..<length r]. (- 1) ^ j * r ! j * det (map (drop_col j) rs))"

declare det.simps [simp del]

definition minor :: "matrix \<Rightarrow> nat \<Rightarrow> nat \<Rightarrow> matrix" where
  "minor M i j = map (drop_col j) (drop_col i M)"

definition is_square :: "matrix \<Rightarrow> bool" where
  "is_square M = list_all (\<lambda>r. length r = length M) M"

text \<open>
  An inversion in exact arithmetic, by cofactors: it raises LinAlgError for a matrix
  that is not square or whose determinant is 0.
\<close>

definition exact_inverse :: "matrix \<Rightarrow> error + matrix" where
  "exact_inverse M =
     (if \<not> is_square M then Inl LinAlgError
      else if det M = 0 then Inl LinAlgError
      else Inr (map (\<lambda>i. map (\<lambda>j. (- 1) ^ (i + j) * det (minor M j i) / det M)
                             [0..<length M]) [0..<length M]))"

text \<open>
  A catalog of three sounds rated 0.5, -0.2 and 0.9 on the column \<^verbatim>\<open>urgency\<close>, with
  the liking (column \<^verbatim>\<open>1\<close>) and familiarity (column \<^verbatim>\<open>13\<close>) of demographic group 1.
\<close>

definition sound_a :: "string \<Rightarrow> cell" where
  "sound_a = (\<lambda>_. None)(''urgency'' := Some 0.5, ''1'' := Some 60, ''13'' := Some 40)"

definition sound_b :: "string \<Rightarrow> cell" where
  "sound_b = (\<lambda>_. None)(''urgency'' := Some (- 0.2), ''1'' := Some 70, ''13'' := Some 30)"

definition sound_c :: "string \<Rightarrow> cell" where
  "sound_c = (\<lambda>_. None)(''urgency'' := Some 0.9, ''1'' := Some 80, ''13'' := Some 20)"

definition urgency_catalog :: frame where
  "urgency_catalog = \<lparr>cols = [''urgency'', ''1'', ''13''], rows = [sound_a, sound_b, sound_c]\<rparr>"

text \<open>A sound without a rating on \<^verbatim>\<open>urgency\<close>, and a catalog that holds it.\<close>

definition sound_nan :: "string \<Rightarrow> cell" where
  "sound_nan = (\<lambda>_. None)(''1'' := Some 90, ''13'' := Some 90)"

definition nan_catalog :: frame where
  "nan_catalog = \<lparr>cols = [''urgency'', ''1'', ''13''], rows = [sound_nan, sound_a]\<rparr>"






text \<open>
  A row with a fractional liking for group 1, a NaN liking for group 2 and no column
  for group 3, and with a negative fractional familiarity for group 1.
\<close>

definition scored_row :: "string \<Rightarrow> cell" where
  "scored_row = (\<lambda>_. None)(''1'' := Some 60.7, ''13'' := Some (- 3.5))"

text \<open>The 19 rating dimensions, as \<^verbatim>\<open>dimension_display\<close> lists them.\<close>

definition rating_dimensions :: "string list" where
  "rating_dimensions =
     [''being_ready'', ''having_news'', ''being_empty'', ''shutting_down'',
      ''negative_warnings'', ''urgency_reminder'', ''encouraging_confirmations'',
      ''starting_prompts'', ''waiting_prompts'', ''sophistication'', ''positivity'',
      ''progressiveness'', ''dominance'', ''solidity'', ''process_ongoing'',
      ''having_a_problem'', ''having_finished_successfully'', ''purity'', ''playfulness'']"

text \<open>The catalog with the cell of column \<open>c\<close> in row \<open>i\<close> replaced by \<open>v\<close>.\<close>

definition set_cell :: "frame \<Rightarrow> nat \<Rightarrow> string \<Rightarrow> cell \<Rightarrow> frame" where
  "set_cell df i c v = df\<lparr>rows := (rows df)[i := (rows df ! i)(c := v)]\<rparr>"

text \<open>A catalog of two sounds rated on two of the rating dimensions.\<close>

definition profile_a :: "string \<Rightarrow> cell" where
  "profile_a = (\<lambda>_. None)(''urgency_reminder'' := Some 0.5, ''positivity'' := Some 0.1,
                              ''1'' := Some 60, ''13'' := Some 40)"

definition profile_b :: "string \<Rightarrow> cell" where
  "profile_b = (\<lambda>_. None)(''urgency_reminder'' := Some (- 0.2), ''positivity'' := Some 0.3,
                              ''1'' := Some 70, ''13'' := Some 30)"

definition profile_catalog :: frame where
  "profile_catalog =
     \<lparr>cols = [''urgency_reminder'', ''positivity'', ''1'', ''13''], rows = [profile_a, profile_b]\<rparr>"

text \<open>A matrix with pairwise different entries, standing for a cached inverse.\<close>

definition example_inverse :: matrix where
  "example_inverse = [[11, 12, 13], [21, 22, 23], [31, 32, 33]]"

section \<open>Auxiliary facts\<close>

subsection \<open>Evaluation of the example data\<close>

lemma str_int_1: "str_int 1 = ''1''"
  by (simp add: str_int_def digits.simps)

lemma str_int_2: "str_int 2 = ''2''"
  by (simp add: str_int_def digits.simps)

lemma str_int_13: "str_int 13 = ''13''"
  by (simp add: str_int_def digits.simps)

lemma str_int_14: "str_int 14 = ''14''"
  by (simp add: str_int_def digits.simps)

lemma rows_urgency_catalog: "rows urgency_catalog = [sound_a, sound_b, sound_c]"
  by (simp add: urgency_catalog_def)

lemma cols_urgency_catalog: "cols urgency_catalog = [''urgency'', ''1'', ''13'']"
  by (simp add: urgency_catalog_def)

lemma urgency_distances:
  "euclidean_distances [0] [''urgency''] urgency_catalog = Inr [Some 0.5, Some 0.2, Some 0.9]"
  by (simp add: euclidean_distances_def select_columns_def urgency_catalog_def broadcastable_def
      row_sub_def np_sub_def np_norm_def sound_a_def sound_b_def sound_c_def)

lemma stable_argsort_3: "b < a \<Longrightarrow> a < c \<Longrightarrow> stable_argsort [Some a, Some b, Some c] = [1, 0, 2]"
  by (simp add: stable_argsort_def nan_le_def numeral_2_eq_2)

lemma passes_thresholds_urgency:
  "passes_thresholds urgency_catalog [1] 0 0 i = (if 3 \<le> i then Inl IndexError else Inr True)"
  apply (simp add: passes_thresholds_def str_int_1 str_int_13 iloc_cell_def urgency_catalog_def
      np_mean_def np_ge_def)
  apply (auto simp: sound_a_def sound_b_def sound_c_def nth_Cons split: nat.splits)
  done

subsection \<open>The index lists of the sub-matrix\<close>

lemma collect_list_index_prefix:
  "distinct (pre @ xs) \<Longrightarrow>
   collect (list_index (pre @ xs)) xs = Inr [length pre..<length (pre @ xs)]"
proof (induction xs arbitrary: pre)
  case Nil
  then show ?case by simp
next
  case (Cons x xs)
  have ix: "list_index (pre @ x # xs) x = Inr (length pre)"
    using Cons.prems by (induction pre) auto
  have "collect (list_index ((pre @ [x]) @ xs)) xs
          = Inr [length (pre @ [x])..<length ((pre @ [x]) @ xs)]"
    using Cons.prems by (intro Cons.IH) simp
  then have rest: "collect (list_index (pre @ x # xs)) xs
          = Inr [Suc (length pre)..<length (pre @ x # xs)]"
    by simp
  have "length pre < length (pre @ x # xs)" by simp
  from upt_conv_Cons [OF this] ix rest show ?case by simp
qed

lemma collect_list_index_self:
  "distinct dimensions \<Longrightarrow> collect (list_index dimensions) dimensions = Inr [0..<length dimensions]"
  using collect_list_index_prefix [of "[]" dimensions] by simp

text \<open>
  Whatever the selected dimensions are, the sub-matrix is the leading block of the
  cached inverse: the positions are looked up in the selected list itself.
\<close>

lemma selected_inv_cov_leading_block:
  "distinct dimensions \<Longrightarrow> length dimensions \<le> length M \<Longrightarrow> length dimensions \<le> ncols M \<Longrightarrow>
   selected_inv_cov M dimensions =
     Inr (map (\<lambda>r. map (\<lambda>c. M ! r ! c) [0..<length dimensions]) [0..<length dimensions])"
  by (simp add: selected_inv_cov_def collect_list_index_self np_ix_select_def list_all_iff)

subsection \<open>The filter loop\<close>

lemma filter_loop_acc:
  "filter_loop ok top_n top_indices acc = Inr res \<Longrightarrow> int (length acc) < top_n \<Longrightarrow>
   int (length res) \<le> top_n \<and>
   (\<exists>ys. res = acc @ ys \<and> subseq ys top_indices
         \<and> prefix ys (filter (\<lambda>i. ok i = Inr True) top_indices))"
proof (induction top_indices arbitrary: acc)
  case Nil
  then show ?case by simp
next
  case (Cons i rest)
  from Cons.prems(1) obtain b where b: "ok i = Inr b"
    by (cases "ok i") auto
  let ?acc' = "if b then acc @ [i] else acc"
  show ?case
  proof (cases "top_n \<le> int (length ?acc')")
    case True
    with Cons.prems b have res: "res = ?acc'" by (simp add: Let_def)
    with True Cons.prems(2) b show ?thesis by (cases b) auto
  next
    case False
    with Cons.prems b have "filter_loop ok top_n rest ?acc' = Inr res" by (simp add: Let_def)
    from Cons.IH [OF this] False obtain ys where
      ys: "int (length res) \<le> top_n" "res = ?acc' @ ys" "subseq ys rest"
          "prefix ys (filter (\<lambda>i. ok i = Inr True) rest)"
      by auto
    show ?thesis
    proof (cases b)
      case True
      with ys b show ?thesis by (intro conjI exI [of _ "i # ys"]) auto
    next
      case False
      with ys b show ?thesis by (intro conjI exI [of _ ys]) auto
    qed
  qed
qed

lemma py_take_prefix: "prefix (py_take n xs) xs"
  by (simp add: py_take_def take_is_prefix)

lemma py_take_length: "0 \<le> n \<Longrightarrow> int (length (py_take n xs)) \<le> n"
  by (simp add: py_take_def)

subsection \<open>The score loop\<close>

lemma scores_loop_sum:
  "scores_loop cs row ids (a, b, c, d) =
     (a + (\<Sum>g\<leftarrow>ids. score_or_zero cs row (str_int g)),
      b + (\<Sum>g\<leftarrow>ids. score_or_zero cs row (str_int (g + 12))),
      c + int (length ids), d + int (length ids))"
  by (induction ids arbitrary: a b c d) auto

subsection \<open>Distances\<close>

lemma all_defined_diff:
  "length us = length dims \<Longrightarrow> list_all (\<lambda>d. r d \<noteq> None) dims \<Longrightarrow>
   all_defined (map2 np_sub (map r dims) us) = Some (map2 (\<lambda>d t. the (r d) - t) dims us)"
proof (induction dims arbitrary: us)
  case Nil
  then show ?case by simp
next
  case (Cons d dims)
  then obtain t ts where us: "us = t # ts" by (cases us) auto
  with Cons show ?case by (auto simp: np_sub_def)
qed

lemma all_defined_None:
  "None \<in> set cs \<Longrightarrow> all_defined cs = None"
  by (induction cs) (auto split: option.splits)

lemma euclidean_distances_ok:
  "list_all (\<lambda>d. d \<in> set (cols df)) dimensions \<Longrightarrow> length user_ratings = length dimensions \<Longrightarrow>
   euclidean_distances user_ratings dimensions df =
     Inr (map (\<lambda>r. np_norm (map2 np_sub (map r dimensions) user_ratings)) (rows df))"
  by (simp add: euclidean_distances_def select_columns_def broadcastable_def row_sub_def comp_def)

lemma is_argsort_3_unique:
  assumes "is_argsort [Some a, Some b, Some c] idx" "b < a" "a < c"
  shows "idx = [1, 0, 2]"
proof -
  from assms(1) obtain x y z where idx: "idx = [x, y, z]"
    by (auto simp: is_argsort_def length_Suc_conv numeral_3_eq_3)
  from assms(1) idx have r: "x < 3" "y < 3" "z < 3" "x \<noteq> y" "x \<noteq> z" "y \<noteq> z"
    by (auto simp: is_argsort_def)
  from assms(1) idx have s: "nan_le ([Some a, Some b, Some c] ! x) ([Some a, Some b, Some c] ! y)"
     "nan_le ([Some a, Some b, Some c] ! x) ([Some a, Some b, Some c] ! z)"
     "nan_le ([Some a, Some b, Some c] ! y) ([Some a, Some b, Some c] ! z)"
    by (auto simp: is_argsort_def)
  from r have "x = 0 \<or> x = 1 \<or> x = 2" "y = 0 \<or> y = 1 \<or> y = 2" "z = 0 \<or> z = 1 \<or> z = 2" by auto
  with r s assms(2,3) idx show ?thesis
    by (auto simp: nan_le_def)
qed

subsection \<open>Sorting\<close>

lemma sorted_wrt_subseq:
  "subseq xs ys \<Longrightarrow> sorted_wrt P ys \<Longrightarrow> sorted_wrt P xs"
proof (induction xs ys rule: list_emb.induct)
  case (list_emb_Nil ys)
  then show ?case by simp
next
  case (list_emb_Cons xs ys y)
  then show ?case by simp
next
  case (list_emb_Cons2 x y xs ys)
  from list_emb_Cons2(2) have "set xs \<subseteq> set ys" by (auto dest: list_emb_set)
  with list_emb_Cons2 show ?case by auto
qed

lemma filter_loop_subseq:
  "filter_loop ok top_n top_indices acc = Inr res \<Longrightarrow> \<exists>ys. res = acc @ ys \<and> subseq ys top_indices"
proof (induction top_indices arbitrary: acc)
  case Nil
  then show ?case by simp
next
  case (Cons i rest)
  from Cons.prems obtain b where b: "ok i = Inr b"
    by (cases "ok i") auto
  let ?acc' = "if b then acc @ [i] else acc"
  show ?case
  proof (cases "top_n \<le> int (length ?acc')")
    case True
    with Cons.prems b have "res = ?acc'" by (simp add: Let_def)
    then show ?thesis by (cases b) auto
  next
    case False
    with Cons.prems b have "filter_loop ok top_n rest ?acc' = Inr res" by (simp add: Let_def)
    from Cons.IH [OF this] obtain ys where ys: "res = ?acc' @ ys" "subseq ys rest" by auto
    show ?thesis
    proof (cases b)
      case True
      with ys show ?thesis by (intro exI [of _ "i # ys"]) auto
    next
      case False
      with ys show ?thesis by (intro exI [of _ ys]) auto
    qed
  qed
qed

lemma nan_le_total: "nan_le a b \<or> nan_le b a"
  by (auto simp: nan_le_def split: option.splits)

lemma nan_le_trans: "nan_le a b \<Longrightarrow> nan_le b c \<Longrightarrow> nan_le a c"
  by (auto simp: nan_le_def split: option.splits)

lemma set_insert_after_ties: "set (insert_after_ties ds i js) = insert i (set js)"
  by (induction js) auto

lemma length_insert_after_ties: "length (insert_after_ties ds i js) = Suc (length js)"
  by (induction js) auto

lemma distinct_insert_after_ties:
  "i \<notin> set js \<Longrightarrow> distinct js \<Longrightarrow> distinct (insert_after_ties ds i js)"
  by (induction js) (auto simp: set_insert_after_ties)

lemma sorted_insert_after_ties:
  "sorted_wrt (\<lambda>i j. nan_le (ds ! i) (ds ! j)) js \<Longrightarrow>
   sorted_wrt (\<lambda>i j. nan_le (ds ! i) (ds ! j)) (insert_after_ties ds i js)"
proof (induction js)
  case Nil
  then show ?case by simp
next
  case (Cons j js)
  show ?case
  proof (cases "nan_le (ds ! j) (ds ! i)")
    case True
    with Cons show ?thesis by (auto simp: set_insert_after_ties)
  next
    case False
    then have "nan_le (ds ! i) (ds ! j)" using nan_le_total by blast
    with False Cons.prems show ?thesis by (auto intro: nan_le_trans)
  qed
qed

lemma stable_argsort_invariant:
  "k \<le> n \<Longrightarrow>
   (let js = foldl (\<lambda>sorted i. insert_after_ties ds i sorted) [] [0..<k]
    in set js = {0..<k} \<and> distinct js \<and> length js = k
       \<and> sorted_wrt (\<lambda>i j. nan_le (ds ! i) (ds ! j)) js)"
proof (induction k)
  case 0
  then show ?case by simp
next
  case (Suc k)
  then show ?case
    by (auto simp: Let_def set_insert_after_ties distinct_insert_after_ties
        length_insert_after_ties sorted_insert_after_ties)
qed

lemma is_argsort_stable_argsort: "is_argsort ds (stable_argsort ds)"
  using stable_argsort_invariant [of "length ds" "length ds" ds]
  by (auto simp: is_argsort_def stable_argsort_def Let_def list_all_iff)

subsection \<open>Undefined ratings\<close>

lemma collect_Inr_nth:
  "collect f xs = Inr ys \<Longrightarrow> length ys = length xs \<and> (\<forall>i<length xs. f (xs ! i) = Inr (ys ! i))"
proof (induction xs arbitrary: ys)
  case Nil
  then show ?case by simp
next
  case (Cons x xs)
  from Cons.prems obtain y ys' where y: "f x = Inr y" "collect f xs = Inr ys'" "ys = y # ys'"
    by (auto split: sum.splits)
  from Cons.IH [OF y(2)] y show ?case by (auto simp: nth_Cons split: nat.splits)
qed

lemma diff_has_nan:
  "length us = length dims \<Longrightarrow> d \<in> set dims \<Longrightarrow> r d = None \<Longrightarrow>
   None \<in> set (map2 np_sub (map r dims) us)"
proof (induction dims arbitrary: us)
  case Nil
  then show ?case by simp
next
  case (Cons x dims)
  then obtain t ts where "us = t # ts" by (cases us) auto
  with Cons show ?case by (auto simp: np_sub_def)
qed

lemma euclidean_nan:
  assumes "length user_ratings = length dimensions" "i < length (rows df)"
    "d \<in> set dimensions" "(rows df ! i) d = None"
    "euclidean_distances user_ratings dimensions df = Inr ds"
  shows "ds ! i = None"
proof -
  from assms(5) have ok: "list_all (\<lambda>d. d \<in> set (cols df)) dimensions"
    by (auto simp: euclidean_distances_def select_columns_def split: if_splits)
  from euclidean_distances_ok [OF ok assms(1)] assms(5,2)
  have "ds ! i = np_norm (map2 np_sub (map (rows df ! i) dimensions) user_ratings)" by auto
  with diff_has_nan [of user_ratings dimensions d "rows df ! i"] assms(1,3,4) show ?thesis
    by (simp add: np_norm_def all_defined_None)
qed

lemma mahalanobis_nan:
  assumes "length user_ratings = length dimensions" "i < length (rows df)"
    "d \<in> set dimensions" "(rows df ! i) d = None"
    "mahalanobis_distances user_ratings dimensions df inv_cov = Inr ms"
  shows "ms ! i = None"
proof -
  from assms(5) obtain S where
    c: "collect (\<lambda>row. if broadcastable (length row) (length user_ratings)
                   then mahalanobis_distance S (row_sub row user_ratings) else Inl ValueError)
          (map (\<lambda>r. map r dimensions) (rows df)) = Inr ms"
    by (auto simp: mahalanobis_distances_def select_columns_def split: if_splits sum.splits)
  from collect_Inr_nth [OF c] assms(2,1)
  have "mahalanobis_distance S (map2 np_sub (map (rows df ! i) dimensions) user_ratings) = Inr (ms ! i)"
    by (auto simp: broadcastable_def row_sub_def)
  with diff_has_nan [of user_ratings dimensions d "rows df ! i"] assms(1,3,4) show ?thesis
    by (auto simp: mahalanobis_distance_def all_defined_None split: if_splits)
qed

lemma argsort_nan_last:
  assumes "is_argsort xs idx" "a < b" "b < length idx" "xs ! (idx ! a) = None"
  shows "xs ! (idx ! b) = None"
proof -
  from assms(1) have "sorted_wrt (\<lambda>i j. nan_le (xs ! i) (xs ! j)) idx" by (simp add: is_argsort_def)
  from sorted_wrt_nth_less [OF this assms(2,3)] assms(4) show ?thesis
    by (simp add: nan_le_def split: option.splits)
qed

lemma rows_nan_catalog: "rows nan_catalog = [sound_nan, sound_a]"
  by (simp add: nan_catalog_def)

lemma nan_distances:
  "euclidean_distances [0] [''urgency''] nan_catalog = Inr [None, Some 0.5]"
  by (simp add: euclidean_distances_def select_columns_def nan_catalog_def broadcastable_def
      row_sub_def np_sub_def np_norm_def sound_a_def sound_nan_def)

lemma nan_mahalanobis_distances:
  "mahalanobis_distances [0] [''urgency''] nan_catalog example_inverse = Inr [None, Some (sqrt (11/4))]"
  by (simp add: mahalanobis_distances_def select_columns_def nan_catalog_def broadcastable_def
      row_sub_def np_sub_def sound_a_def sound_nan_def selected_inv_cov_def np_ix_select_def
      example_inverse_def ncols_def mahalanobis_distance_def vec_mat_def dot_def np_sqrt_def)

lemma stable_argsort_nan_first: "stable_argsort [None, Some x] = [1, 0]"
  by (simp add: stable_argsort_def nan_le_def)

lemma passes_thresholds_nan:
  "passes_thresholds nan_catalog [1] 0 0 i = (if 2 \<le> i then Inl IndexError else Inr True)"
  apply (simp add: passes_thresholds_def str_int_1 str_int_13 iloc_cell_def nan_catalog_def
      np_mean_def np_ge_def)
  apply (auto simp: sound_a_def sound_nan_def nth_Cons split: nat.splits)
  done

subsection \<open>The ranked result\<close>

lemma iloc_rows_fst: "iloc_rows df idx = Inr res \<Longrightarrow> map fst res = idx"
  by (auto simp: iloc_rows_def comp_def split: if_splits)

lemma ranked_sorted:
  assumes "is_argsort ds idx" "filter_loop ok top_n idx [] = Inr sel" "iloc_rows df sel = Inr res"
  shows "sorted_wrt (\<lambda>a b. nan_le (ds ! fst a) (ds ! fst b)) res"
proof -
  from filter_loop_subseq [OF assms(2)] have "subseq sel idx" by simp
  moreover from assms(1) have "sorted_wrt (\<lambda>i j. nan_le (ds ! i) (ds ! j)) idx"
    by (simp add: is_argsort_def)
  ultimately have "sorted_wrt (\<lambda>i j. nan_le (ds ! i) (ds ! j)) sel" by (rule sorted_wrt_subseq)
  with iloc_rows_fst [OF assms(3)] have "sorted_wrt (\<lambda>i j. nan_le (ds ! i) (ds ! j)) (map fst res)"
    by simp
  then show ?thesis by (simp add: sorted_wrt_map)
qed

lemma urgency_mahalanobis_distances:
  "mahalanobis_distances [0] [''urgency''] urgency_catalog example_inverse
     = Inr [Some (sqrt (11 / 4)), Some (sqrt (11 / 25)), Some (sqrt (891 / 100))]"
  by (simp add: mahalanobis_distances_def select_columns_def urgency_catalog_def broadcastable_def
      row_sub_def np_sub_def sound_a_def sound_b_def sound_c_def selected_inv_cov_def
      np_ix_select_def example_inverse_def ncols_def mahalanobis_distance_def vec_mat_def dot_def
      np_sqrt_def)

subsection \<open>A singular covariance\<close>

lemma singular_covariance:
  "covariance [1, 1] [[0, 1, 1], [0, 1, 1]] = Inr [[1, 1], [1, 1]]"
  by (simp add: covariance_def corr_matrix_setup_def np_diag_def matmul_def ncols_def
      vec_mat_def dot_def numeral_2_eq_2)

lemma det_singular: "det [[1, 1], [1, 1]] = 0"
  by (simp add: det.simps drop_col_def numeral_2_eq_2)

subsection \<open>Column names\<close>

lemma digits_hd: "digits n \<noteq> [] \<and> hd (digits n) \<in> set ''0123456789''"
proof (induction n rule: digits.induct)
  case (1 n)
  show ?case
  proof (cases "n < 10")
    case True
    then have "''0123456789'' ! n \<in> set ''0123456789''" by (intro nth_mem) simp
    with True show ?thesis by (subst (1 2) digits.simps) simp
  next
    case False
    with 1 show ?thesis by (subst (1 2) digits.simps) simp
  qed
qed

lemma str_int_hd: "str_int g \<noteq> [] \<and> hd (str_int g) \<in> set ''-0123456789''"
  using digits_hd [of "nat g"] digits_hd [of "nat (- g)"]
  by (auto simp: str_int_def)

lemma str_int_not_dimension: "c \<in> set rating_dimensions \<Longrightarrow> str_int g \<noteq> c"
proof
  assume c: "c \<in> set rating_dimensions" and e: "str_int g = c"
  from c have "hd c \<notin> set ''-0123456789''"
    by (auto simp: rating_dimensions_def)
  with e str_int_hd [of g] show False by simp
qed

subsection \<open>Changing one cell of the catalog\<close>

lemma collect_cong:
  "(\<And>x. x \<in> set xs \<Longrightarrow> f x = g x) \<Longrightarrow> collect f xs = collect g xs"
  by (induction xs) (simp_all cong: sum.case_cong)

lemma cols_set_cell: "cols (set_cell df i c v) = cols df"
  by (simp add: set_cell_def)

lemma length_rows_set_cell: "length (rows (set_cell df i c v)) = length (rows df)"
  by (simp add: set_cell_def)

lemma rows_set_cell_other:
  "name \<noteq> c \<Longrightarrow> j < length (rows df) \<Longrightarrow> (rows (set_cell df i c v) ! j) name = (rows df ! j) name"
  by (cases "i = j") (simp_all add: set_cell_def)

lemma select_columns_set_cell:
  "c \<notin> set dimensions \<Longrightarrow> select_columns (set_cell df i c v) dimensions = select_columns df dimensions"
proof -
  assume c: "c \<notin> set dimensions"
  have "map (\<lambda>r. map r dimensions) (rows (set_cell df i c v)) = map (\<lambda>r. map r dimensions) (rows df)"
  proof (rule nth_equalityI)
    show "length (map (\<lambda>r. map r dimensions) (rows (set_cell df i c v)))
        = length (map (\<lambda>r. map r dimensions) (rows df))"
      by (simp add: length_rows_set_cell)
  next
    fix j assume "j < length (map (\<lambda>r. map r dimensions) (rows (set_cell df i c v)))"
    then have j: "j < length (rows df)" by (simp add: length_rows_set_cell)
    have "map (rows (set_cell df i c v) ! j) dimensions = map (rows df ! j) dimensions"
      using c j by (intro map_cong refl rows_set_cell_other) auto
    with j show "map (\<lambda>r. map r dimensions) (rows (set_cell df i c v)) ! j
        = map (\<lambda>r. map r dimensions) (rows df) ! j"
      by (simp add: length_rows_set_cell)
  qed
  then show ?thesis by (simp add: select_columns_def cols_set_cell)
qed

lemma iloc_cell_set_cell:
  "name \<noteq> c \<Longrightarrow> iloc_cell (set_cell df i c v) j name = iloc_cell df j name"
  by (simp add: iloc_cell_def cols_set_cell length_rows_set_cell rows_set_cell_other)

lemma passes_thresholds_set_cell:
  "c \<in> set rating_dimensions \<Longrightarrow>
   passes_thresholds (set_cell df i c v) gs l f = passes_thresholds df gs l f"
  by (rule ext)
    (simp add: passes_thresholds_def iloc_cell_set_cell str_int_not_dimension cong: sum.case_cong)

lemma euclidean_distances_set_cell:
  "c \<notin> set dimensions \<Longrightarrow>
   euclidean_distances us dimensions (set_cell df i c v) = euclidean_distances us dimensions df"
  by (simp add: euclidean_distances_def select_columns_set_cell)

lemma mahalanobis_distances_set_cell:
  "c \<notin> set dimensions \<Longrightarrow>
   mahalanobis_distances us dimensions (set_cell df i c v) inv_cov
     = mahalanobis_distances us dimensions df inv_cov"
  by (simp add: mahalanobis_distances_def select_columns_set_cell)

lemma iloc_rows_positions:
  "map_sum id (map fst) (iloc_rows df idx)
     = (if list_all (\<lambda>i. i < length (rows df)) idx then Inr idx else Inl IndexError)"
  by (simp add: iloc_rows_def comp_def)

lemma positions_case:
  "map_sum id (map fst) (case r of Inl e \<Rightarrow> Inl e | Inr top_indices \<Rightarrow> iloc_rows df top_indices)
     = (case r of Inl e \<Rightarrow> Inl e
        | Inr top_indices \<Rightarrow>
            if list_all (\<lambda>i. i < length (rows df)) top_indices then Inr top_indices
            else Inl IndexError)"
  by (cases r) (simp_all add: iloc_rows_positions)

lemma profile_distances:
  "euclidean_distances [0] [''urgency_reminder''] profile_catalog = Inr [Some 0.5, Some 0.2]"
  by (simp add: euclidean_distances_def select_columns_def profile_catalog_def broadcastable_def
      row_sub_def np_sub_def np_norm_def profile_a_def profile_b_def)

lemma profile_mahalanobis_distances:
  "mahalanobis_distances [0] [''urgency_reminder''] profile_catalog example_inverse
     = Inr [Some (sqrt (11 / 4)), Some (sqrt (11 / 25))]"
  by (simp add: mahalanobis_distances_def select_columns_def profile_catalog_def broadcastable_def
      row_sub_def np_sub_def profile_a_def profile_b_def selected_inv_cov_def
      np_ix_select_def example_inverse_def ncols_def mahalanobis_distance_def vec_mat_def dot_def
      np_sqrt_def)

lemma stable_argsort_2: "b < a \<Longrightarrow> stable_argsort [Some a, Some b] = [1, 0]"
  by (simp add: stable_argsort_def nan_le_def)

lemma passes_thresholds_profile:
  "passes_thresholds profile_catalog [1] 0 0 i = (if 2 \<le> i then Inl IndexError else Inr True)"
  apply (simp add: passes_thresholds_def str_int_1 str_int_13 iloc_cell_def profile_catalog_def
      np_mean_def np_ge_def)
  apply (auto simp: profile_a_def profile_b_def nth_Cons split: nat.splits)
  done

lemma rows_profile_catalog: "rows profile_catalog = [profile_a, profile_b]"
  by (simp add: profile_catalog_def)

lemma score_or_zero_nan_zero:
  "score_or_zero cs (row(c := None)) name = score_or_zero cs (row(c := Some 0)) name"
  by (simp add: score_or_zero_def py_int_def)

subsection \<open>What the filter loop returns\<close>

lemma collect_map:
  "(\<And>x. x \<in> set xs \<Longrightarrow> f x = Inr (g x)) \<Longrightarrow> collect f xs = Inr (map g xs)"
  by (induction xs) simp_all

lemma passes_thresholds_total:
  assumes "list_all (\<lambda>g. str_int g \<in> set (cols df) \<and> str_int (g + 12) \<in> set (cols df)) gs"
    and "i < length (rows df)"
  shows "passes_thresholds df gs l f i =
     Inr (np_ge (np_mean (map (\<lambda>g. (rows df ! i) (str_int g)) gs)) l
          \<and> np_ge (np_mean (map (\<lambda>g. (rows df ! i) (str_int (g + 12))) gs)) f)"
proof -
  have 1: "collect (\<lambda>g. iloc_cell df i (str_int g)) gs
      = Inr (map (\<lambda>g. (rows df ! i) (str_int g)) gs)"
    using assms by (intro collect_map) (auto simp: iloc_cell_def list_all_iff)
  have 2: "collect (\<lambda>g. iloc_cell df i (str_int (g + 12))) gs
      = Inr (map (\<lambda>g. (rows df ! i) (str_int (g + 12))) gs)"
    using assms by (intro collect_map) (auto simp: iloc_cell_def list_all_iff)
  show ?thesis by (simp add: passes_thresholds_def 1 2)
qed

lemma filter_loop_take_filter_acc:
  "(\<And>j. j \<in> set idx \<Longrightarrow> ok j = Inr (p j)) \<Longrightarrow> int (length acc) < top_n \<Longrightarrow>
   filter_loop ok top_n idx acc = Inr (acc @ take (nat top_n - length acc) (filter p idx))"
proof (induction idx arbitrary: acc)
  case Nil
  then show ?case by simp
next
  case (Cons i rest)
  have oki: "ok i = Inr (p i)" by (rule Cons.prems(1)) simp
  have rest: "\<And>j. j \<in> set rest \<Longrightarrow> ok j = Inr (p j)" using Cons.prems(1) by simp
  show ?case
  proof (cases "p i")
    case False
    with oki Cons.prems(2) Cons.IH [OF rest Cons.prems(2)] show ?thesis by simp
  next
    case True
    from Cons.prems(2) have pos: "nat top_n - length acc = Suc (nat top_n - Suc (length acc))"
      by linarith
    show ?thesis
    proof (cases "top_n \<le> int (length acc) + 1")
      case True
      with Cons.prems(2) have "nat top_n - Suc (length acc) = 0" by linarith
      with \<open>p i\<close> oki True pos show ?thesis by simp
    next
      case False
      then have lt: "int (length (acc @ [i])) < top_n" by simp
      from Cons.IH [OF rest lt] \<open>p i\<close> oki False pos show ?thesis by simp
    qed
  qed
qed

lemma filter_loop_take_filter:
  "(\<And>j. j \<in> set idx \<Longrightarrow> ok j = Inr (p j)) \<Longrightarrow> 1 \<le> top_n \<Longrightarrow>
   filter_loop ok top_n idx [] = Inr (take (nat top_n) (filter p idx))"
  using filter_loop_take_filter_acc [of idx ok p "[]" top_n] by simp

subsection \<open>The catalog with all twelve groups\<close>






subsection \<open>Membership in the returned result\<close>

lemma member_take_filter:
  "distinct idx \<Longrightarrow> i \<in> set idx \<Longrightarrow>
   (i \<in> set (take m (filter p idx)) \<longleftrightarrow>
      p i \<and> length (filter p (takeWhile (\<lambda>k. k \<noteq> i) idx)) < m)"
proof (induction idx arbitrary: m)
  case Nil
  then show ?case by simp
next
  case (Cons x xs)
  show ?case
  proof (cases "x = i")
    case True
    with Cons.prems have "i \<notin> set xs" by simp
    then have "i \<notin> set (take k (filter p xs))" for k
      by (auto dest: in_set_takeD)
    with True show ?thesis by (cases m) auto
  next
    case False
    with Cons.prems have d: "distinct xs" and i: "i \<in> set xs" by auto
    show ?thesis
    proof (cases "p x")
      case True
      show ?thesis
      proof (cases m)
        case 0
        then show ?thesis by simp
      next
        case (Suc m')
        with True False Cons.IH [OF d i, of m'] show ?thesis by auto
      qed
    next
      case False
      with \<open>x \<noteq> i\<close> Cons.IH [OF d i, of m] show ?thesis by auto
    qed
  qed
qed

lemma before_in_takeWhile:
  "sorted_wrt R idx \<Longrightarrow> j \<in> set idx \<Longrightarrow> \<not> R i j \<Longrightarrow> R i i \<Longrightarrow>
   j \<in> set (takeWhile (\<lambda>k. k \<noteq> i) idx)"
  by (induction idx) auto

lemma is_argsort_set:
  assumes "is_argsort ds idx"
  shows "set idx = {0..<length ds}"
proof -
  from assms have l: "length idx = length ds" and d: "distinct idx"
    and s: "set idx \<subseteq> {0..<length ds}"
    by (auto simp: is_argsort_def list_all_iff)
  from d l have "card (set idx) = card {0..<length ds}" by (simp add: distinct_card)
  with s show ?thesis by (intro card_subset_eq) auto
qed

lemma defined_before_nan:
  assumes "is_argsort ds idx" "ds ! i = None" "j < length ds" "ds ! j \<noteq> None"
  shows "j \<in> set (takeWhile (\<lambda>k. k \<noteq> i) idx)"
proof (rule before_in_takeWhile [where R = "\<lambda>a b. nan_le (ds ! a) (ds ! b)"])
  show "sorted_wrt (\<lambda>a b. nan_le (ds ! a) (ds ! b)) idx"
    using assms(1) by (simp add: is_argsort_def)
  show "j \<in> set idx" using is_argsort_set [OF assms(1)] assms(3) by simp
  show "\<not> nan_le (ds ! i) (ds ! j)" using assms(2,4) by (auto simp: nan_le_def)
  show "nan_le (ds ! i) (ds ! i)" using assms(2) by (simp add: nan_le_def)
qed

lemma ranked_core:
  assumes a: "is_argsort ds idx" and len: "length ds = length (rows df)" and n: "1 \<le> top_n"
    and c: "list_all (\<lambda>g. str_int g \<in> set (cols df) \<and> str_int (g + 12) \<in> set (cols df)) gs"
    and i: "i < length (rows df)"
  shows "\<exists>res. (case filter_loop (passes_thresholds df gs L F) top_n idx [] of
                 Inl e \<Rightarrow> Inl e | Inr t \<Rightarrow> iloc_rows df t) = Inr res
          \<and> (i \<in> fst ` set res \<longleftrightarrow>
               passes_thresholds df gs L F i = Inr True
               \<and> int (length (filter (\<lambda>j. passes_thresholds df gs L F j = Inr True)
                                 (takeWhile (\<lambda>k. k \<noteq> i) idx))) < top_n)"
proof -
  let ?p = "\<lambda>j. passes_thresholds df gs L F j = Inr True"
  have rng: "j < length (rows df)" if "j \<in> set idx" for j
    using that is_argsort_set [OF a] len by simp
  have ok: "passes_thresholds df gs L F j = Inr (?p j)" if "j \<in> set idx" for j
    using passes_thresholds_total [OF c rng [OF that], of L F] by simp
  have fl: "filter_loop (passes_thresholds df gs L F) top_n idx [] = Inr (take (nat top_n) (filter ?p idx))"
    using ok n by (rule filter_loop_take_filter)
  have inr: "list_all (\<lambda>j. j < length (rows df)) (take (nat top_n) (filter ?p idx))"
    using rng by (auto simp: list_all_iff dest: in_set_takeD)
  let ?res = "map (\<lambda>j. (j, rows df ! j)) (take (nat top_n) (filter ?p idx))"
  have r: "(case filter_loop (passes_thresholds df gs L F) top_n idx [] of
                 Inl e \<Rightarrow> Inl e | Inr t \<Rightarrow> iloc_rows df t) = Inr ?res"
    by (simp add: fl iloc_rows_def inr)
  have d: "distinct idx" using a by (simp add: is_argsort_def)
  have m: "i \<in> set idx" using is_argsort_set [OF a] i len by simp
  have "fst ` set ?res = set (take (nat top_n) (filter ?p idx))" by (auto simp: image_iff)
  with member_take_filter [OF d m, of "nat top_n" ?p] n
  have "i \<in> fst ` set ?res \<longleftrightarrow>
      ?p i \<and> int (length (filter ?p (takeWhile (\<lambda>k. k \<noteq> i) idx))) < top_n"
    by auto
  with r show ?thesis by blast
qed

lemma euclidean_distances_length:
  "euclidean_distances us dims df = Inr ds \<Longrightarrow> length ds = length (rows df)"
  by (auto simp: euclidean_distances_def select_columns_def split: if_splits sum.splits)

lemma mahalanobis_distances_length:
  "mahalanobis_distances us dims df inv_cov = Inr ms \<Longrightarrow> length ms = length (rows df)"
  by (auto simp: mahalanobis_distances_def select_columns_def split: if_splits sum.splits
      dest!: collect_Inr_nth)

subsection \<open>The errors of the searches\<close>

lemma collect_Inl: "collect f xs = Inl e \<Longrightarrow> \<exists>x\<in>set xs. f x = Inl e"
  by (induction xs) (auto split: sum.splits)

lemma filter_loop_Inl: "filter_loop ok top_n idx acc = Inl e \<Longrightarrow> \<exists>j\<in>set idx. ok j = Inl e"
  by (induction idx arbitrary: acc) (auto simp: Let_def split: sum.splits if_splits)

lemma list_index_error: "list_index xs x = Inl e \<Longrightarrow> e = ValueError"
  by (induction xs) (auto split: if_splits sum.splits)

lemma passes_thresholds_error:
  "passes_thresholds df gs l f i = Inl e \<Longrightarrow> e = IndexError \<or> e = KeyError"
  by (auto simp: passes_thresholds_def iloc_cell_def split: sum.splits if_splits
      dest!: collect_Inl)

lemma iloc_rows_error: "iloc_rows df idx = Inl e \<Longrightarrow> e = IndexError"
  by (auto simp: iloc_rows_def split: if_splits)

lemma euclidean_distances_error:
  "euclidean_distances us dims df = Inl e \<Longrightarrow> e = KeyError \<or> e = ValueError"
  by (auto simp: euclidean_distances_def select_columns_def split: sum.splits if_splits)

lemma selected_inv_cov_error:
  "selected_inv_cov M dims = Inl e \<Longrightarrow> e = ValueError \<or> e = IndexError"
  by (auto simp: selected_inv_cov_def np_ix_select_def split: sum.splits if_splits
      dest!: collect_Inl list_index_error)

lemma mahalanobis_distances_error:
  "mahalanobis_distances us dims df M = Inl e \<Longrightarrow> e = KeyError \<or> e = ValueError \<or> e = IndexError"
  by (auto simp: mahalanobis_distances_def select_columns_def mahalanobis_distance_def
      split: sum.splits if_splits dest!: collect_Inl selected_inv_cov_error)

lemma find_closest_sounds_euclidean_error:
  "find_closest_sounds_euclidean argsort l f us dims df gs n = Inl e \<Longrightarrow> e \<noteq> LinAlgError"
  by (auto simp: find_closest_sounds_euclidean_def split: sum.splits
      dest!: euclidean_distances_error filter_loop_Inl passes_thresholds_error iloc_rows_error)

lemma find_closest_sounds_mahalanobis_error:
  "find_closest_sounds_mahalanobis argsort l f us dims df M gs n = Inl e \<Longrightarrow> e \<noteq> LinAlgError"
  by (auto simp: find_closest_sounds_mahalanobis_def split: sum.splits
      dest!: mahalanobis_distances_error filter_loop_Inl passes_thresholds_error iloc_rows_error)

lemma display_results_error:
  "display_results a argsort l f us dims gs n = Inl e \<Longrightarrow> e \<noteq> LinAlgError"
  by (auto simp: display_results_def split: sum.splits if_splits
      dest!: find_closest_sounds_euclidean_error find_closest_sounds_mahalanobis_error)

lemma exact_inverse_singular: "exact_inverse [[1, 1], [1, 1]] = Inl LinAlgError"
  by (simp add: exact_inverse_def det_singular)

lemma regular_load:
  "load_and_prepare_data exact_inverse [1, 2] [[0, 1, 0.75], [0, 0.75, 1]] urgency_catalog
     = Inr \<lparr>inv_cov_matrix = [[4 / 3, - (1 / 3)], [- (1 / 3), 1 / 3]],
            final_combined_data = urgency_catalog\<rparr>"
  by (simp add: load_and_prepare_data_def covariance_def corr_matrix_setup_def np_diag_def
      matmul_def ncols_def vec_mat_def dot_def numeral_2_eq_2 exact_inverse_def is_square_def
      det.simps drop_col_def minor_def)

lemma regular_run:
  "run exact_inverse [1, 2] [[0, 1, 0.75], [0, 0.75, 1]] urgency_catalog stable_argsort 0 0 [0]
     [''urgency''] [1] 2
   = Inr ([(1, sound_b), (0, sound_a)], [(1, sound_b), (0, sound_a)])"
proof -
  have e: "find_closest_sounds_euclidean stable_argsort 0 0 [0] [''urgency''] urgency_catalog [1] 2
        = Inr [(1, sound_b), (0, sound_a)]"
    by (simp add: find_closest_sounds_euclidean_def urgency_distances stable_argsort_3
        passes_thresholds_urgency iloc_rows_def rows_urgency_catalog)
  have d: "mahalanobis_distances [0] [''urgency''] urgency_catalog
        [[4 / 3, - (1 / 3)], [- (1 / 3), 1 / 3]]
     = Inr [Some (sqrt (1 / 3)), Some (sqrt (4 / 75)), Some (sqrt (27 / 25))]"
    by (simp add: mahalanobis_distances_def select_columns_def urgency_catalog_def broadcastable_def
      row_sub_def np_sub_def sound_a_def sound_b_def sound_c_def selected_inv_cov_def
      np_ix_select_def ncols_def mahalanobis_distance_def vec_mat_def dot_def np_sqrt_def)
  have m: "find_closest_sounds_mahalanobis stable_argsort 0 0 [0] [''urgency''] urgency_catalog
        [[4 / 3, - (1 / 3)], [- (1 / 3), 1 / 3]] [1] 2 = Inr [(1, sound_b), (0, sound_a)]"
    unfolding find_closest_sounds_mahalanobis_def d
    by (simp add: stable_argsort_3 passes_thresholds_urgency iloc_rows_def rows_urgency_catalog)
  show ?thesis
    unfolding run_def regular_load
    by (simp add: display_results_def e m)
qed

section \<open>Properties\<close>

text \<open>
  C8. Every coefficient \<open>c\<close> of the source table (column \<open>j + 1\<close> of row \<open>i\<close>, the
  first column being the label column) appears in the matrix that enters the covariance
  as \<open>2 c - 1\<close>; the table holding \<open>0.75\<close> gives exactly \<open>0.5\<close>, hence within \<open>1e-9\<close>
  of it.
\<close>

theorem corr_matrix_setup_rescales:
  "(i < length tbl \<and> j + 1 < length (tbl ! i)
      \<longrightarrow> corr_matrix_setup tbl ! i ! j = 2 * (tbl ! i ! (j + 1)) - 1)
   \<and> corr_matrix_setup [[lbl, 0.75]] = [[0.5]]
   \<and> \<bar>corr_matrix_setup [[lbl, 0.75]] ! 0 ! 0 - 0.5\<bar> \<le> 1 / 10 ^ 9"
  by (auto simp: corr_matrix_setup_def)

theorem corr_matrix_setup_rescales_witness:
  "(0::nat) < length [[0, 1, 0.75], [1, 0.75, 1::real]]
   \<and> (1::nat) + 1 < length ([[0, 1, 0.75], [1, 0.75, 1::real]] ! 0)
   \<and> corr_matrix_setup [[0, 1, 0.75], [1, 0.75, 1]] ! 0 ! 1 = 0.5"
  using corr_matrix_setup_rescales [of 0 "[[0, 1, 0.75], [1, 0.75, 1]]" 1 0]
  by simp

text \<open>
  C1. The claim says that selecting the dimensions \<open>[d2, d0]\<close> reads the cached
  inverse at rows and columns \<open>[2, 0]\<close>. The code looks the positions up in the list of
  selected dimensions, not in the full dimension ordering: for two selected dimensions,
  in either order, it reads rows and columns \<open>[0, 1]\<close>, the leading block of the
  inverse, and not the entries at \<open>[2, 0]\<close>.
\<close>

theorem selected_inv_cov_reads_leading_block:
  "selected_inv_cov example_inverse [''being_empty'', ''being_ready''] = Inr [[11, 12], [21, 22]]
   \<and> selected_inv_cov example_inverse [''being_ready'', ''being_empty''] = Inr [[11, 12], [21, 22]]
   \<and> np_ix_select example_inverse [2, 0] [2, 0] = Inr [[33, 31], [13, 11]]"
  by (simp add: selected_inv_cov_def np_ix_select_def ncols_def example_inverse_def)




text \<open>
  C5. For every ordered candidate sequence and every \<open>top_n\<close> that the code can
  receive (the slider offers 1 to 10, so \<open>top_n \<ge> 1\<close>), the selection returns at most \<open>top_n\<close> positions, the result
  is a subsequence of its input in the input's order, and in version 10 it is a prefix of
  the candidates that pass the filter. The same bound and order hold for version 5.
\<close>

theorem top_n_selection_bounded_subsequence:
  "1 \<le> top_n \<Longrightarrow>
   (filter_loop ok top_n top_indices [] = Inr res \<longrightarrow>
      int (length res) \<le> top_n \<and> subseq res top_indices
      \<and> prefix res (filter (\<lambda>i. ok i = Inr True) top_indices))
   \<and> (select_top_v5 df user_group_ids top_n top_indices = Inr res5 \<longrightarrow>
      int (length res5) \<le> top_n \<and> subseq res5 top_indices)"
proof (intro conjI impI)
  assume n: "1 \<le> top_n"
  { assume "filter_loop ok top_n top_indices [] = Inr res"
    from filter_loop_acc [OF this] n
    show "int (length res) \<le> top_n" "subseq res top_indices"
      "prefix res (filter (\<lambda>i. ok i = Inr True) top_indices)" by auto }
  assume v5: "select_top_v5 df user_group_ids top_n top_indices = Inr res5"
  show "int (length res5) \<le> top_n"
  proof (cases "length user_group_ids < NUM_DEMOGRAPHIC_GROUPS")
    case True
    with v5 have "filter_loop (\<lambda>index. any_liked df index user_group_ids) top_n top_indices []
        = Inr res5"
      by (simp add: select_top_v5_def)
    from filter_loop_acc [OF this] n show ?thesis by auto
  next
    case False
    with v5 n show ?thesis using py_take_length [of top_n top_indices]
      by (auto simp: select_top_v5_def)
  qed
  show "subseq res5 top_indices"
  proof (cases "length user_group_ids < NUM_DEMOGRAPHIC_GROUPS")
    case True
    with v5 have "filter_loop (\<lambda>index. any_liked df index user_group_ids) top_n top_indices []
        = Inr res5"
      by (simp add: select_top_v5_def)
    from filter_loop_acc [OF this] n show ?thesis by auto
  next
    case False
    with v5 show ?thesis using py_take_prefix [of top_n top_indices]
      by (auto simp: select_top_v5_def prefix_imp_subseq)
  qed
qed

theorem top_n_selection_bounded_subsequence_witness:
  "(1::int) \<le> 2
   \<and> filter_loop (passes_thresholds urgency_catalog [1] 0 0) 2 [1, 0, 2] [] = Inr [1, 0]
   \<and> select_top_v5 urgency_catalog [1] 2 [1, 0, 2] = Inr [1, 0]
   \<and> int (length [1, 0 :: nat]) \<le> 2 \<and> subseq [1, 0 :: nat] [1, 0, 2]
   \<and> prefix [1, 0]
        (filter (\<lambda>i. passes_thresholds urgency_catalog [1] 0 0 i = Inr True) [1, 0, 2])"
proof -
  have loop: "filter_loop (passes_thresholds urgency_catalog [1] 0 0) 2 [1, 0, 2] [] = Inr [1, 0]"
    by (simp add: passes_thresholds_urgency)
  have v5: "select_top_v5 urgency_catalog [1] 2 [1, 0, 2] = Inr [1, 0]"
    by (simp add: select_top_v5_def NUM_DEMOGRAPHIC_GROUPS_def str_int_1 iloc_cell_def
        rows_urgency_catalog cols_urgency_catalog np_gt_def sound_a_def sound_b_def sound_c_def)
  from top_n_selection_bounded_subsequence
         [where top_n = 2 and ok = "passes_thresholds urgency_catalog [1] 0 0"
            and top_indices = "[1, 0, 2]" and res = "[1, 0]" and df = urgency_catalog
            and user_group_ids = "[1]" and ?res5.0 = "[1, 0]"]
       loop v5
  show ?thesis by simp
qed

text \<open>
  C3, as the claim states it, fails: \<open>sound_nan\<close> has no rating on the selected
  dimension and is still returned, after the sound with a defined distance, by the
  Euclidean and by the Mahalanobis search.
\<close>

theorem undefined_rating_ranked_counterexample:
  "sound_nan ''urgency'' = None
   \<and> find_closest_sounds_euclidean stable_argsort 0 0 [0] [''urgency''] nan_catalog [1] 2
       = Inr [(1, sound_a), (0, sound_nan)]
   \<and> find_closest_sounds_mahalanobis stable_argsort 0 0 [0] [''urgency''] nan_catalog
       example_inverse [1] 2 = Inr [(1, sound_a), (0, sound_nan)]"
  by (simp add: find_closest_sounds_euclidean_def find_closest_sounds_mahalanobis_def
      nan_distances nan_mahalanobis_distances stable_argsort_nan_first passes_thresholds_nan
      iloc_rows_def rows_nan_catalog) (simp add: sound_nan_def)

text \<open>
  C3, amended. Take a query with as many target ratings as selected dimensions, a
  selection of groups whose score columns exist, \<open>top_n \<ge> 1\<close>, and a catalog entry
  \<open>i\<close> whose rating is undefined on a selected dimension. In the Euclidean and in the
  Mahalanobis search, for every sort that meets numpy's contract: the distance of \<open>i\<close>
  is undefined (NaN), so its undefined value never contributes as zero; every entry with
  a defined distance is sorted before \<open>i\<close>; and the search returns a result that
  contains \<open>i\<close> exactly when \<open>i\<close> passes the demographic filter and fewer than
  \<open>top_n\<close> of the candidates sorted before it pass. The entry is not excluded.
\<close>

theorem undefined_rating_not_excluded:
  "length user_ratings = length dimensions \<Longrightarrow> i < length (rows df) \<Longrightarrow> d \<in> set dimensions \<Longrightarrow>
   (rows df ! i) d = None \<Longrightarrow> 1 \<le> top_n \<Longrightarrow>
   list_all (\<lambda>g. str_int g \<in> set (cols df) \<and> str_int (g + 12) \<in> set (cols df)) user_group_ids \<Longrightarrow>
   (euclidean_distances user_ratings dimensions df = Inr ds \<and> is_argsort ds (argsort ds) \<longrightarrow>
      ds ! i = None
      \<and> (\<forall>j<length ds. ds ! j \<noteq> None \<longrightarrow> j \<in> set (takeWhile (\<lambda>k. k \<noteq> i) (argsort ds)))
      \<and> (\<exists>res. find_closest_sounds_euclidean argsort MIN_LIKING MIN_FAMILIARITY user_ratings
                  dimensions df user_group_ids top_n = Inr res
            \<and> (i \<in> fst ` set res \<longleftrightarrow>
                 passes_thresholds df user_group_ids MIN_LIKING MIN_FAMILIARITY i = Inr True
                 \<and> int (length (filter
                       (\<lambda>j. passes_thresholds df user_group_ids MIN_LIKING MIN_FAMILIARITY j = Inr True)
                       (takeWhile (\<lambda>k. k \<noteq> i) (argsort ds)))) < top_n)))
   \<and> (mahalanobis_distances user_ratings dimensions df inv_cov = Inr ms \<and> is_argsort ms (argsort ms) \<longrightarrow>
      ms ! i = None
      \<and> (\<forall>j<length ms. ms ! j \<noteq> None \<longrightarrow> j \<in> set (takeWhile (\<lambda>k. k \<noteq> i) (argsort ms)))
      \<and> (\<exists>res. find_closest_sounds_mahalanobis argsort MIN_LIKING MIN_FAMILIARITY user_ratings
                  dimensions df inv_cov user_group_ids top_n = Inr res
            \<and> (i \<in> fst ` set res \<longleftrightarrow>
                 passes_thresholds df user_group_ids MIN_LIKING MIN_FAMILIARITY i = Inr True
                 \<and> int (length (filter
                       (\<lambda>j. passes_thresholds df user_group_ids MIN_LIKING MIN_FAMILIARITY j = Inr True)
                       (takeWhile (\<lambda>k. k \<noteq> i) (argsort ms)))) < top_n)))"
proof (intro conjI impI)
  assume h: "length user_ratings = length dimensions" "i < length (rows df)" "d \<in> set dimensions"
    "(rows df ! i) d = None"
    and n: "1 \<le> top_n"
    and c: "list_all (\<lambda>g. str_int g \<in> set (cols df) \<and> str_int (g + 12) \<in> set (cols df)) user_group_ids"
  { assume e: "euclidean_distances user_ratings dimensions df = Inr ds \<and> is_argsort ds (argsort ds)"
    then have ed: "euclidean_distances user_ratings dimensions df = Inr ds"
      and sa: "is_argsort ds (argsort ds)" by auto
    from h ed show nan: "ds ! i = None" by (rule euclidean_nan)
    from defined_before_nan [OF sa nan]
    show "\<forall>j<length ds. ds ! j \<noteq> None \<longrightarrow> j \<in> set (takeWhile (\<lambda>k. k \<noteq> i) (argsort ds))" by blast
    from ranked_core [OF sa euclidean_distances_length [OF ed] n c h(2)]
    show "\<exists>res. find_closest_sounds_euclidean argsort MIN_LIKING MIN_FAMILIARITY user_ratings
                  dimensions df user_group_ids top_n = Inr res
            \<and> (i \<in> fst ` set res \<longleftrightarrow>
                 passes_thresholds df user_group_ids MIN_LIKING MIN_FAMILIARITY i = Inr True
                 \<and> int (length (filter
                       (\<lambda>j. passes_thresholds df user_group_ids MIN_LIKING MIN_FAMILIARITY j = Inr True)
                       (takeWhile (\<lambda>k. k \<noteq> i) (argsort ds)))) < top_n)"
      unfolding find_closest_sounds_euclidean_def ed by simp }
  { assume e: "mahalanobis_distances user_ratings dimensions df inv_cov = Inr ms
        \<and> is_argsort ms (argsort ms)"
    then have md: "mahalanobis_distances user_ratings dimensions df inv_cov = Inr ms"
      and sa: "is_argsort ms (argsort ms)" by auto
    from h md show nan: "ms ! i = None" by (rule mahalanobis_nan)
    from defined_before_nan [OF sa nan]
    show "\<forall>j<length ms. ms ! j \<noteq> None \<longrightarrow> j \<in> set (takeWhile (\<lambda>k. k \<noteq> i) (argsort ms))" by blast
    from ranked_core [OF sa mahalanobis_distances_length [OF md] n c h(2)]
    show "\<exists>res. find_closest_sounds_mahalanobis argsort MIN_LIKING MIN_FAMILIARITY user_ratings
                  dimensions df inv_cov user_group_ids top_n = Inr res
            \<and> (i \<in> fst ` set res \<longleftrightarrow>
                 passes_thresholds df user_group_ids MIN_LIKING MIN_FAMILIARITY i = Inr True
                 \<and> int (length (filter
                       (\<lambda>j. passes_thresholds df user_group_ids MIN_LIKING MIN_FAMILIARITY j = Inr True)
                       (takeWhile (\<lambda>k. k \<noteq> i) (argsort ms)))) < top_n)"
      unfolding find_closest_sounds_mahalanobis_def md by simp }
qed

theorem undefined_rating_not_excluded_witness:
  "length [0::real] = length [''urgency''] \<and> (0::nat) < length (rows nan_catalog)
   \<and> ''urgency'' \<in> set [''urgency''] \<and> (rows nan_catalog ! 0) ''urgency'' = None
   \<and> (1::int) \<le> 2
   \<and> list_all (\<lambda>g. str_int g \<in> set (cols nan_catalog) \<and> str_int (g + 12) \<in> set (cols nan_catalog)) [1]
   \<and> euclidean_distances [0] [''urgency''] nan_catalog = Inr [None, Some 0.5]
   \<and> is_argsort [None, Some 0.5] (stable_argsort [None, Some 0.5])
   \<and> mahalanobis_distances [0] [''urgency''] nan_catalog example_inverse
        = Inr [None, Some (sqrt (11 / 4))]
   \<and> is_argsort [None, Some (sqrt (11 / 4))] (stable_argsort [None, Some (sqrt (11 / 4))])
   \<and> find_closest_sounds_euclidean stable_argsort 0 0 [0] [''urgency''] nan_catalog [1] 2
        = Inr [(1, sound_a), (0, sound_nan)]
   \<and> find_closest_sounds_mahalanobis stable_argsort 0 0 [0] [''urgency''] nan_catalog
        example_inverse [1] 2 = Inr [(1, sound_a), (0, sound_nan)]
   \<and> passes_thresholds nan_catalog [1] 0 0 0 = Inr True
   \<and> int (length (filter (\<lambda>j. passes_thresholds nan_catalog [1] 0 0 j = Inr True)
                     (takeWhile (\<lambda>k. k \<noteq> 0) (stable_argsort [None, Some 0.5])))) < 2"
proof -
  have h1: "length [0::real] = length [''urgency'']" by simp
  have h2: "(0::nat) < length (rows nan_catalog)" by (simp add: rows_nan_catalog)
  have h3: "''urgency'' \<in> set [''urgency'']" by simp
  have h4: "(rows nan_catalog ! 0) ''urgency'' = None" by (simp add: rows_nan_catalog sound_nan_def)
  have h5: "(1::int) \<le> 2" by simp
  have h6: "list_all (\<lambda>g. str_int g \<in> set (cols nan_catalog) \<and> str_int (g + 12) \<in> set (cols nan_catalog)) [1]"
    by (simp add: nan_catalog_def str_int_1 str_int_13)
  have e: "find_closest_sounds_euclidean stable_argsort 0 0 [0] [''urgency''] nan_catalog [1] 2
        = Inr [(1, sound_a), (0, sound_nan)]"
    by (simp add: find_closest_sounds_euclidean_def nan_distances stable_argsort_nan_first
        passes_thresholds_nan iloc_rows_def rows_nan_catalog)
  have m: "find_closest_sounds_mahalanobis stable_argsort 0 0 [0] [''urgency''] nan_catalog
        example_inverse [1] 2 = Inr [(1, sound_a), (0, sound_nan)]"
    by (simp add: find_closest_sounds_mahalanobis_def nan_mahalanobis_distances
        stable_argsort_nan_first passes_thresholds_nan iloc_rows_def rows_nan_catalog)
  have p: "passes_thresholds nan_catalog [1] 0 0 0 = Inr True" by (simp add: passes_thresholds_nan)
  note t = undefined_rating_not_excluded [OF h1 h2 h3 h4 h5 h6, of "[None, Some 0.5]" stable_argsort 0 0 example_inverse
                "[None, Some (sqrt (11 / 4))]"]
  from t nan_distances is_argsort_stable_argsort [of "[None, Some 0.5]"] e
  have "int (length (filter (\<lambda>j. passes_thresholds nan_catalog [1] 0 0 j = Inr True)
                     (takeWhile (\<lambda>k. k \<noteq> 0) (stable_argsort [None, Some 0.5])))) < 2"
    by auto
  with h1 h2 h3 h4 h5 h6 e m p nan_distances nan_mahalanobis_distances
    is_argsort_stable_argsort [of "[None, Some 0.5]"]
    is_argsort_stable_argsort [of "[None, Some (sqrt (11 / 4))]"]
  show ?thesis by simp
qed

text \<open>
  C4. For a query with as many target ratings as selected dimensions, all of them
  columns of the catalog, the Euclidean distance of an entry that is rated on every
  selected dimension is the square root of the sum, over the selected dimensions, of the
  squared difference between rating and target. On the catalog of three sounds rated
  0.5, -0.2 and 0.9 on \<^verbatim>\<open>urgency\<close>, with target 0 and \<open>top_n = 2\<close>, demographic
  group 1 and thresholds 0, the distances are 0.5, 0.2 and 0.9 and the result is the
  sound rated -0.2 followed by the sound rated 0.5, for every sort meeting numpy's
  contract; \<^verbatim>\<open>find_closest_sound\<close> returns the sound rated -0.2.
\<close>

theorem euclidean_distance_selected_dimensions:
  "(list_all (\<lambda>d. d \<in> set (cols df)) dimensions \<and> length user_ratings = length dimensions
      \<and> i < length (rows df) \<and> list_all (\<lambda>d. (rows df ! i) d \<noteq> None) dimensions
    \<longrightarrow> (\<exists>ds. euclidean_distances user_ratings dimensions df = Inr ds
           \<and> ds ! i = Some (sqrt (sum_list
                 (map2 (\<lambda>d t. (the ((rows df ! i) d) - t)\<^sup>2) dimensions user_ratings)))))
   \<and> euclidean_distances [0] [''urgency''] urgency_catalog = Inr [Some 0.5, Some 0.2, Some 0.9]
   \<and> (is_argsort [Some 0.5, Some 0.2, Some 0.9] (argsort [Some 0.5, Some 0.2, Some 0.9])
      \<longrightarrow> find_closest_sounds_euclidean argsort 0 0 [0] [''urgency''] urgency_catalog [1] 2
            = Inr [(1, sound_b), (0, sound_a)])
   \<and> find_closest_sound [0] [''urgency''] urgency_catalog = Inr (1, sound_b)"
proof (intro conjI impI)
  assume a: "list_all (\<lambda>d. d \<in> set (cols df)) dimensions \<and> length user_ratings = length dimensions
      \<and> i < length (rows df) \<and> list_all (\<lambda>d. (rows df ! i) d \<noteq> None) dimensions"
  then have ok: "list_all (\<lambda>d. d \<in> set (cols df)) dimensions"
    and len: "length user_ratings = length dimensions" and i: "i < length (rows df)"
    and def: "list_all (\<lambda>d. (rows df ! i) d \<noteq> None) dimensions" by auto
  have sq: "map (\<lambda>v. v\<^sup>2) (map2 (\<lambda>d t. the ((rows df ! i) d) - t) dimensions user_ratings)
      = map2 (\<lambda>d t. (the ((rows df ! i) d) - t)\<^sup>2) dimensions user_ratings"
    by (auto simp: comp_def split_def)
  have "np_norm (map2 np_sub (map (rows df ! i) dimensions) user_ratings)
      = Some (sqrt (sum_list
                 (map2 (\<lambda>d t. (the ((rows df ! i) d) - t)\<^sup>2) dimensions user_ratings)))"
    unfolding np_norm_def all_defined_diff [OF len def] sq [symmetric] by simp
  moreover have "map (\<lambda>r. np_norm (map2 np_sub (map r dimensions) user_ratings)) (rows df) ! i
      = np_norm (map2 np_sub (map (rows df ! i) dimensions) user_ratings)"
    using i by simp
  ultimately show "\<exists>ds. euclidean_distances user_ratings dimensions df = Inr ds
           \<and> ds ! i = Some (sqrt (sum_list
                 (map2 (\<lambda>d t. (the ((rows df ! i) d) - t)\<^sup>2) dimensions user_ratings)))"
    unfolding euclidean_distances_ok [OF ok len] by simp
next
  show "euclidean_distances [0] [''urgency''] urgency_catalog = Inr [Some 0.5, Some 0.2, Some 0.9]"
    by (rule urgency_distances)
next
  assume "is_argsort [Some 0.5, Some 0.2, Some 0.9] (argsort [Some 0.5, Some 0.2, Some 0.9])"
  then have "argsort [Some 0.5, Some 0.2, Some 0.9] = [1, 0, 2]"
    by (rule is_argsort_3_unique) simp_all
  then have "filter_loop (passes_thresholds urgency_catalog [1] 0 0) 2
       (argsort [Some 0.5, Some 0.2, Some 0.9]) [] = Inr [1, 0]"
    by (simp add: passes_thresholds_urgency)
  then show "find_closest_sounds_euclidean argsort 0 0 [0] [''urgency''] urgency_catalog [1] 2
            = Inr [(1, sound_b), (0, sound_a)]"
    unfolding find_closest_sounds_euclidean_def urgency_distances
    by (simp add: iloc_rows_def rows_urgency_catalog)
next
  show "find_closest_sound [0] [''urgency''] urgency_catalog = Inr (1, sound_b)"
    unfolding find_closest_sound_def urgency_distances
    by (simp add: np_argmin_def rows_urgency_catalog)
qed

theorem euclidean_distance_selected_dimensions_witness:
  "list_all (\<lambda>d. d \<in> set (cols urgency_catalog)) [''urgency'']
   \<and> length [0::real] = length [''urgency'']
   \<and> (1::nat) < length (rows urgency_catalog)
   \<and> list_all (\<lambda>d. (rows urgency_catalog ! 1) d \<noteq> None) [''urgency'']
   \<and> is_argsort [Some 0.5, Some 0.2, Some 0.9] (stable_argsort [Some 0.5, Some 0.2, Some 0.9])
   \<and> find_closest_sounds_euclidean stable_argsort 0 0 [0] [''urgency''] urgency_catalog [1] 2
        = Inr [(1, sound_b), (0, sound_a)]
   \<and> (\<exists>ds. euclidean_distances [0] [''urgency''] urgency_catalog = Inr ds \<and> ds ! 1 = Some 0.2)"
proof -
  have h: "list_all (\<lambda>d. d \<in> set (cols urgency_catalog)) [''urgency'']
   \<and> length [0::real] = length [''urgency'']
   \<and> (1::nat) < length (rows urgency_catalog)
   \<and> list_all (\<lambda>d. (rows urgency_catalog ! 1) d \<noteq> None) [''urgency'']"
    by (simp add: rows_urgency_catalog cols_urgency_catalog sound_b_def)
  have s: "is_argsort [Some 0.5, Some 0.2, Some 0.9] (stable_argsort [Some 0.5, Some 0.2, Some 0.9])"
    by (rule is_argsort_stable_argsort)
  from euclidean_distance_selected_dimensions [of urgency_catalog "[''urgency'']" "[0]" 1 stable_argsort] h s
  show ?thesis by (simp add: urgency_distances)
qed

text \<open>
  C6, as the claim states it, fails. The table with every coefficient 1 (two identical
  dimensions) and the standard deviations 1 give the singular covariance
  \<open>[[1, 1], [1, 1]]\<close>. All numbers of this input are exact in binary floating point,
  the elimination meets the pivot \<open>1 - 1 \<cdot> 1 = 0\<close>, and the load fails. Whatever the
  inversion does on this input, it never happens that the load succeeds and the
  Mahalanobis query then fails with LinAlgError.
\<close>

theorem singular_covariance_query_error_counterexample:
  "covariance [1, 1] [[0, 1, 1], [0, 1, 1]] = Inr [[1, 1], [1, 1]]
   \<and> det [[1, 1], [1, 1]] = 0
   \<and> load_and_prepare_data exact_inverse [1, 1] [[0, 1, 1], [0, 1, 1]] urgency_catalog
       = Inl LinAlgError
   \<and> (\<forall>linalg_inv. \<not> (\<exists>a.
         load_and_prepare_data linalg_inv [1, 1] [[0, 1, 1], [0, 1, 1]] urgency_catalog = Inr a
         \<and> find_closest_sounds_mahalanobis stable_argsort 0 0 [0] [''urgency'']
             (final_combined_data a) (inv_cov_matrix a) [1] 2 = Inl LinAlgError))"
proof (intro conjI allI notI)
  show "covariance [1, 1] [[0, 1, 1], [0, 1, 1]] = Inr [[1, 1], [1, 1]]"
    by (rule singular_covariance)
  show "det [[1, 1], [1, 1]] = 0" by (rule det_singular)
  show "load_and_prepare_data exact_inverse [1, 1] [[0, 1, 1], [0, 1, 1]] urgency_catalog
       = Inl LinAlgError"
    by (simp add: load_and_prepare_data_def singular_covariance exact_inverse_singular)
next
  fix linalg_inv :: "matrix \<Rightarrow> error + matrix"
  assume "\<exists>a. load_and_prepare_data linalg_inv [1, 1] [[0, 1, 1], [0, 1, 1]] urgency_catalog = Inr a
         \<and> find_closest_sounds_mahalanobis stable_argsort 0 0 [0] [''urgency'']
             (final_combined_data a) (inv_cov_matrix a) [1] 2 = Inl LinAlgError"
  then obtain a :: app where "find_closest_sounds_mahalanobis stable_argsort 0 0 [0] [''urgency'']
             (final_combined_data a) (inv_cov_matrix a) [1] 2 = Inl LinAlgError" by blast
  from find_closest_sounds_mahalanobis_error [OF this] show False by simp
qed

text \<open>
  C6, amended. For every reference data set, with a singular covariance or not, the
  covariance is inverted once, while the data is loaded, and no exception is caught.
  If \<^verbatim>\<open>np.linalg.inv\<close> raises, \<^verbatim>\<open>load_and_prepare_data\<close> and \<^verbatim>\<open>run\<close> fail with that
  error and no query, Mahalanobis or Euclidean, is evaluated. If it does not raise, the
  load succeeds with the matrix it returned, and no query of either metric and no run
  fails with LinAlgError. The failure is never surfaced per metric at query time, and
  nothing falls back to the Euclidean metric.
\<close>

theorem inversion_error_only_at_load:
  "(covariance stds corr_table = Inr cov \<and> linalg_inv cov = Inl e \<longrightarrow>
      load_and_prepare_data linalg_inv stds corr_table combined = Inl e
      \<and> run linalg_inv stds corr_table combined argsort MIN_LIKING MIN_FAMILIARITY user_ratings
           selected_dimensions user_group_ids top_n = Inl e)
   \<and> (load_and_prepare_data linalg_inv stds2 corr_table2 combined2 = Inr a \<longrightarrow>
      (\<exists>cov2. covariance stds2 corr_table2 = Inr cov2 \<and> linalg_inv cov2 = Inr (inv_cov_matrix a))
      \<and> final_combined_data a = combined2
      \<and> find_closest_sounds_mahalanobis argsort MIN_LIKING MIN_FAMILIARITY user_ratings
           selected_dimensions (final_combined_data a) (inv_cov_matrix a) user_group_ids top_n
           \<noteq> Inl LinAlgError
      \<and> find_closest_sounds_euclidean argsort MIN_LIKING MIN_FAMILIARITY user_ratings
           selected_dimensions (final_combined_data a) user_group_ids top_n \<noteq> Inl LinAlgError
      \<and> run linalg_inv stds2 corr_table2 combined2 argsort MIN_LIKING MIN_FAMILIARITY user_ratings
           selected_dimensions user_group_ids top_n \<noteq> Inl LinAlgError)"
proof (intro conjI impI)
  { assume "covariance stds corr_table = Inr cov \<and> linalg_inv cov = Inl e"
    then show "load_and_prepare_data linalg_inv stds corr_table combined = Inl e"
      and "run linalg_inv stds corr_table combined argsort MIN_LIKING MIN_FAMILIARITY user_ratings
           selected_dimensions user_group_ids top_n = Inl e"
      by (simp_all add: load_and_prepare_data_def run_def) }
  assume l: "load_and_prepare_data linalg_inv stds2 corr_table2 combined2 = Inr a"
  then show "\<exists>cov2. covariance stds2 corr_table2 = Inr cov2 \<and> linalg_inv cov2 = Inr (inv_cov_matrix a)"
    and "final_combined_data a = combined2"
    by (auto simp: load_and_prepare_data_def split: sum.splits)
  show "find_closest_sounds_mahalanobis argsort MIN_LIKING MIN_FAMILIARITY user_ratings
           selected_dimensions (final_combined_data a) (inv_cov_matrix a) user_group_ids top_n
           \<noteq> Inl LinAlgError"
    using find_closest_sounds_mahalanobis_error by blast
  show "find_closest_sounds_euclidean argsort MIN_LIKING MIN_FAMILIARITY user_ratings
           selected_dimensions (final_combined_data a) user_group_ids top_n \<noteq> Inl LinAlgError"
    using find_closest_sounds_euclidean_error by blast
  show "run linalg_inv stds2 corr_table2 combined2 argsort MIN_LIKING MIN_FAMILIARITY user_ratings
           selected_dimensions user_group_ids top_n \<noteq> Inl LinAlgError"
    using l display_results_error [of a argsort MIN_LIKING MIN_FAMILIARITY user_ratings
        selected_dimensions user_group_ids top_n]
    by (auto simp: run_def)
qed

theorem inversion_error_only_at_load_witness:
  "covariance [1, 1] [[0, 1, 1], [0, 1, 1]] = Inr [[1, 1], [1, 1]]
   \<and> exact_inverse [[1, 1], [1, 1]] = Inl LinAlgError
   \<and> run exact_inverse [1, 1] [[0, 1, 1], [0, 1, 1]] urgency_catalog stable_argsort 0 0 [0]
        [''urgency''] [1] 2 = Inl LinAlgError
   \<and> load_and_prepare_data exact_inverse [1, 2] [[0, 1, 0.75], [0, 0.75, 1]] urgency_catalog
       = Inr \<lparr>inv_cov_matrix = [[4 / 3, - (1 / 3)], [- (1 / 3), 1 / 3]],
              final_combined_data = urgency_catalog\<rparr>
   \<and> run exact_inverse [1, 2] [[0, 1, 0.75], [0, 0.75, 1]] urgency_catalog stable_argsort 0 0 [0]
        [''urgency''] [1] 2
       = Inr ([(1, sound_b), (0, sound_a)], [(1, sound_b), (0, sound_a)])
   \<and> run exact_inverse [1, 2] [[0, 1, 0.75], [0, 0.75, 1]] urgency_catalog stable_argsort 0 0 [0]
        [''urgency''] [1] 2 \<noteq> Inl LinAlgError"
  using inversion_error_only_at_load [of "[1, 1]" "[[0, 1, 1], [0, 1, 1]]" "[[1, 1], [1, 1]]" exact_inverse LinAlgError
              urgency_catalog stable_argsort 0 0 "[0]" "[''urgency'']" "[1]" 2
              "[1, 2]" "[[0, 1, 0.75], [0, 0.75, 1]]" urgency_catalog
              "\<lparr>inv_cov_matrix = [[4 / 3, - (1 / 3)], [- (1 / 3), 1 / 3]],
                final_combined_data = urgency_catalog\<rparr>"]
        singular_covariance exact_inverse_singular regular_load regular_run
  by simp

text \<open>
  C7. Two runs of a search, Euclidean or Mahalanobis with the same cached inverse, on
  catalogs that differ only in one entry's value \<open>v\<close> on a rating dimension \<open>c\<close>
  that the query did not select give every entry the same distance and return the same
  positions in the same order (or fail with the same error): distance and rank depend
  only on the ratings in the selected dimensions.
\<close>

theorem unselected_dimension_irrelevant:
  "c \<in> set rating_dimensions \<Longrightarrow> c \<notin> set dimensions \<Longrightarrow>
   euclidean_distances user_ratings dimensions (set_cell df i c v)
     = euclidean_distances user_ratings dimensions df
   \<and> mahalanobis_distances user_ratings dimensions (set_cell df i c v) inv_cov
     = mahalanobis_distances user_ratings dimensions df inv_cov
   \<and> map_sum id (map fst)
        (find_closest_sounds_euclidean argsort MIN_LIKING MIN_FAMILIARITY user_ratings dimensions
           (set_cell df i c v) user_group_ids top_n)
     = map_sum id (map fst)
        (find_closest_sounds_euclidean argsort MIN_LIKING MIN_FAMILIARITY user_ratings dimensions
           df user_group_ids top_n)
   \<and> map_sum id (map fst)
        (find_closest_sounds_mahalanobis argsort MIN_LIKING MIN_FAMILIARITY user_ratings dimensions
           (set_cell df i c v) inv_cov user_group_ids top_n)
     = map_sum id (map fst)
        (find_closest_sounds_mahalanobis argsort MIN_LIKING MIN_FAMILIARITY user_ratings dimensions
           df inv_cov user_group_ids top_n)"
proof (intro conjI)
  assume c: "c \<in> set rating_dimensions" "c \<notin> set dimensions"
  show "euclidean_distances user_ratings dimensions (set_cell df i c v)
     = euclidean_distances user_ratings dimensions df"
    using c(2) by (rule euclidean_distances_set_cell)
  show "mahalanobis_distances user_ratings dimensions (set_cell df i c v) inv_cov
     = mahalanobis_distances user_ratings dimensions df inv_cov"
    using c(2) by (rule mahalanobis_distances_set_cell)
  show "map_sum id (map fst)
        (find_closest_sounds_euclidean argsort MIN_LIKING MIN_FAMILIARITY user_ratings dimensions
           (set_cell df i c v) user_group_ids top_n)
     = map_sum id (map fst)
        (find_closest_sounds_euclidean argsort MIN_LIKING MIN_FAMILIARITY user_ratings dimensions
           df user_group_ids top_n)"
    unfolding find_closest_sounds_euclidean_def euclidean_distances_set_cell [OF c(2)]
      passes_thresholds_set_cell [OF c(1)]
    by (cases "euclidean_distances user_ratings dimensions df")
       (simp_all add: positions_case length_rows_set_cell cong: sum.case_cong)
  show "map_sum id (map fst)
        (find_closest_sounds_mahalanobis argsort MIN_LIKING MIN_FAMILIARITY user_ratings dimensions
           (set_cell df i c v) inv_cov user_group_ids top_n)
     = map_sum id (map fst)
        (find_closest_sounds_mahalanobis argsort MIN_LIKING MIN_FAMILIARITY user_ratings dimensions
           df inv_cov user_group_ids top_n)"
    unfolding find_closest_sounds_mahalanobis_def mahalanobis_distances_set_cell [OF c(2)]
      passes_thresholds_set_cell [OF c(1)]
    by (cases "mahalanobis_distances user_ratings dimensions df inv_cov")
       (simp_all add: positions_case length_rows_set_cell cong: sum.case_cong)
qed

theorem unselected_dimension_irrelevant_witness:
  "''positivity'' \<in> set rating_dimensions \<and> ''positivity'' \<notin> set [''urgency_reminder'']
   \<and> euclidean_distances [0] [''urgency_reminder'']
        (set_cell profile_catalog 0 ''positivity'' (Some 0.9)) = Inr [Some 0.5, Some 0.2]
   \<and> mahalanobis_distances [0] [''urgency_reminder'']
        (set_cell profile_catalog 0 ''positivity'' (Some 0.9)) example_inverse
        = Inr [Some (sqrt (11 / 4)), Some (sqrt (11 / 25))]
   \<and> map_sum id (map fst)
        (find_closest_sounds_euclidean stable_argsort 0 0 [0] [''urgency_reminder'']
           (set_cell profile_catalog 0 ''positivity'' (Some 0.9)) [1] 2) = Inr [1, 0]
   \<and> map_sum id (map fst)
        (find_closest_sounds_mahalanobis stable_argsort 0 0 [0] [''urgency_reminder'']
           (set_cell profile_catalog 0 ''positivity'' (Some 0.9)) example_inverse [1] 2) = Inr [1, 0]"
proof -
  have h: "''positivity'' \<in> set rating_dimensions" "''positivity'' \<notin> set [''urgency_reminder'']"
    by (simp_all add: rating_dimensions_def)
  have e: "find_closest_sounds_euclidean stable_argsort 0 0 [0] [''urgency_reminder'']
      profile_catalog [1] 2 = Inr [(1, profile_b), (0, profile_a)]"
    by (simp add: find_closest_sounds_euclidean_def profile_distances stable_argsort_2
        passes_thresholds_profile iloc_rows_def rows_profile_catalog)
  have m: "find_closest_sounds_mahalanobis stable_argsort 0 0 [0] [''urgency_reminder'']
      profile_catalog example_inverse [1] 2 = Inr [(1, profile_b), (0, profile_a)]"
    unfolding find_closest_sounds_mahalanobis_def profile_mahalanobis_distances
    by (simp add: stable_argsort_2 passes_thresholds_profile iloc_rows_def rows_profile_catalog)
  from unselected_dimension_irrelevant [OF h, of "[0]" profile_catalog 0 "Some 0.9" example_inverse stable_argsort 0 0 "[1]" 2]
       h e m profile_distances profile_mahalanobis_distances
  show ?thesis by simp
qed

text \<open>
  C10. For a non-empty list of selected groups, the liking and the familiarity shown
  with a result row are the floor of the mean, over all selected groups, of the row's
  scores taken as integers: the score of a group is read from the column
  \<^verbatim>\<open>str(id)\<close> (liking) or \<^verbatim>\<open>str(id + 12)\<close> (familiarity) and cut to an integer
  towards zero, a score whose column is missing or whose cell is NaN counts as 0, and
  the divisor is the number of selected groups. A NaN cell gives the same displayed
  values as a cell holding 0.
\<close>

theorem calculate_scores_floor_mean:
  "(user_group_ids \<noteq> [] \<longrightarrow>
     calculate_scores user_group_ids cs row =
       (\<lfloor>real_of_int (\<Sum>g\<leftarrow>user_group_ids.
            if str_int g \<in> set cs
            then (case row (str_int g) of None \<Rightarrow> 0
                  | Some x \<Rightarrow> if 0 \<le> x then \<lfloor>x\<rfloor> else \<lceil>x\<rceil>)
            else 0)
          / real (length user_group_ids)\<rfloor>,
        \<lfloor>real_of_int (\<Sum>g\<leftarrow>user_group_ids.
            if str_int (g + 12) \<in> set cs
            then (case row (str_int (g + 12)) of None \<Rightarrow> 0
                  | Some x \<Rightarrow> if 0 \<le> x then \<lfloor>x\<rfloor> else \<lceil>x\<rceil>)
            else 0)
          / real (length user_group_ids)\<rfloor>))
   \<and> calculate_scores user_group_ids cs (row(c := None))
       = calculate_scores user_group_ids cs (row(c := Some 0))"
proof (intro conjI impI)
  have fl: "\<lfloor>real_of_int a / real (length user_group_ids)\<rfloor> = a div int (length user_group_ids)"
    for a
    using floor_divide_of_int_eq [of a "int (length user_group_ids)", where ?'a = real] by simp
  have sc: "score_or_zero cs row name
      = (if name \<in> set cs
         then (case row name of None \<Rightarrow> 0 | Some x \<Rightarrow> if 0 \<le> x then \<lfloor>x\<rfloor> else \<lceil>x\<rceil>)
         else 0)" for name
    by (simp add: score_or_zero_def py_int_def split: option.splits)
  assume "user_group_ids \<noteq> []"
  then show "calculate_scores user_group_ids cs row =
       (\<lfloor>real_of_int (\<Sum>g\<leftarrow>user_group_ids.
            if str_int g \<in> set cs
            then (case row (str_int g) of None \<Rightarrow> 0
                  | Some x \<Rightarrow> if 0 \<le> x then \<lfloor>x\<rfloor> else \<lceil>x\<rceil>)
            else 0)
          / real (length user_group_ids)\<rfloor>,
        \<lfloor>real_of_int (\<Sum>g\<leftarrow>user_group_ids.
            if str_int (g + 12) \<in> set cs
            then (case row (str_int (g + 12)) of None \<Rightarrow> 0
                  | Some x \<Rightarrow> if 0 \<le> x then \<lfloor>x\<rfloor> else \<lceil>x\<rceil>)
            else 0)
          / real (length user_group_ids)\<rfloor>)"
    unfolding fl by (simp add: calculate_scores_def scores_loop_sum sc)
next
  show "calculate_scores user_group_ids cs (row(c := None))
       = calculate_scores user_group_ids cs (row(c := Some 0))"
    unfolding calculate_scores_def scores_loop_sum score_or_zero_nan_zero ..
qed

text \<open>
  With the groups 1, 2 and 3 selected, \<open>scored_row\<close> has the likings 60.7, NaN and
  none, and the familiarities -3.5, NaN and none: the displayed values are
  \<open>\<lfloor>(60 + 0 + 0) / 3\<rfloor> = 20\<close> and \<open>\<lfloor>(-3 + 0 + 0) / 3\<rfloor> = -1\<close>.
\<close>

theorem calculate_scores_floor_mean_witness:
  "[1, 2, 3 :: int] \<noteq> []
   \<and> scored_row ''1'' = Some 60.7 \<and> scored_row ''2'' = None \<and> ''3'' \<notin> set [''1'', ''2'', ''13'', ''14'']
   \<and> scored_row ''13'' = Some (- 3.5) \<and> scored_row ''14'' = None
   \<and> calculate_scores [1, 2, 3] [''1'', ''2'', ''13'', ''14''] scored_row = (20, - 1)"
proof -
  have s: "str_int 1 = ''1''" "str_int 2 = ''2''" "str_int 3 = ''3''"
    "str_int 13 = ''13''" "str_int 14 = ''14''" "str_int 15 = ''15''"
    by (simp_all add: str_int_def digits.simps)
  have f: "\<lfloor>607 / 10 :: real\<rfloor> = 60" "\<lceil>- (7 / 2) :: real\<rceil> = - 3"
    "\<lfloor>- 1 :: real\<rfloor> = - 1" by linarith+
  from calculate_scores_floor_mean [of "[1, 2, 3]" "[''1'', ''2'', ''13'', ''14'']" scored_row "''2''"]
  show ?thesis
    by (simp add: s scored_row_def f)
qed

end
